theory Spec2Isabelle
  imports Complex_Main
begin

section \<open>JavaScript strings and regular expressions\<close>

text \<open>
  A JavaScript string is a sequence of UTF-16 code units; \<open>length\<close>, \<open>substring\<close> and the
  regular expressions of \<open>index.ts\<close> (none has the \<open>u\<close> flag) all work on code units.
  The model writes a string as a \<^typ>\<open>string\<close>, one \<^typ>\<open>char\<close> for one code unit, which
  covers the code units below 256.
\<close>

definition isSpace :: "char \<Rightarrow> bool" where
  \<comment> \<open>The class \<open>\s\<close>, and what \<open>trim\<close> strips: TAB, LF, VT, FF, CR, SP and NBSP.\<close>
  "isSpace c = (c \<in> set [CHR 0x09, CHR 0x0A, CHR 0x0B, CHR 0x0C, CHR 0x0D, CHR 0x20, CHR 0xA0])"

definition lower :: "char \<Rightarrow> char" where
  "lower c = (let n = (of_char c :: nat) in if 65 \<le> n \<and> n \<le> 90 then char_of (n + 32) else c)"

definition anyChar :: "char \<Rightarrow> bool" where
  \<comment> \<open>\<open>[\s\S]\<close>, and \<open>.\<close> under the \<open>s\<close> flag.\<close>
  "anyChar c = True"

definition notChar :: "char \<Rightarrow> char \<Rightarrow> bool" where
  \<comment> \<open>\<open>[^c]\<close>\<close>
  "notChar c x = (x \<noteq> c)"

text \<open>
  The regular expressions of \<open>index.ts\<close> are sequences of: a literal character, a
  character class, a greedy or lazy star of a character class, a capture parenthesis, the
  end anchor, and one lookahead whose alternatives are literals or the end of the input.
  \<open>LitI\<close> is a literal under the \<open>i\<close> flag (the patterns' letters are ASCII, so a code
  unit matches when it is the letter in either case).
\<close>

datatype atom =
    Lit char
  | LitI char
  | Cls "char \<Rightarrow> bool"
  | Many "char \<Rightarrow> bool"
  | Few "char \<Rightarrow> bool"
  | Mark
  | Eos
  | Ahead "string list" bool

fun startsWith :: "string \<Rightarrow> string \<Rightarrow> bool" where
  "startsWith [] s = True"
| "startsWith (c # cs) [] = False"
| "startsWith (c # cs) (x # xs) = (c = x \<and> startsWith cs xs)"

text \<open>
  \<open>rmatch re s i\<close> matches \<open>re\<close> at the head of \<open>s\<close>, with \<open>i\<close> code units of the match
  already consumed. It backtracks in the order of the ECMAScript matcher: a greedy star
  tries the longer match first, a lazy star the shorter. The result is the length of the
  match and the offsets (from the start of the match) of the capture parentheses.
\<close>

fun rmatch :: "atom list \<Rightarrow> string \<Rightarrow> nat \<Rightarrow> (nat \<times> nat list) option" where
  "rmatch [] s i = Some (i, [])"
| "rmatch (Lit c # rs) [] i = None"
| "rmatch (Lit c # rs) (x # xs) i = (if x = c then rmatch rs xs (Suc i) else None)"
| "rmatch (LitI c # rs) [] i = None"
| "rmatch (LitI c # rs) (x # xs) i = (if lower x = lower c then rmatch rs xs (Suc i) else None)"
| "rmatch (Cls p # rs) [] i = None"
| "rmatch (Cls p # rs) (x # xs) i = (if p x then rmatch rs xs (Suc i) else None)"
| "rmatch (Many p # rs) [] i = rmatch rs [] i"
| "rmatch (Many p # rs) (x # xs) i =
     (if p x then
        (case rmatch (Many p # rs) xs (Suc i) of
           Some r \<Rightarrow> Some r
         | None \<Rightarrow> rmatch rs (x # xs) i)
      else rmatch rs (x # xs) i)"
| "rmatch (Few p # rs) [] i = rmatch rs [] i"
| "rmatch (Few p # rs) (x # xs) i =
     (case rmatch rs (x # xs) i of
        Some r \<Rightarrow> Some r
      | None \<Rightarrow> if p x then rmatch (Few p # rs) xs (Suc i) else None)"
| "rmatch (Mark # rs) s i =
     (case rmatch rs s i of Some (e, ms) \<Rightarrow> Some (e, i # ms) | None \<Rightarrow> None)"
| "rmatch (Eos # rs) s i = (if s = [] then rmatch rs s i else None)"
| "rmatch (Ahead ls atEnd # rs) s i =
     (if list_ex (\<lambda>l. startsWith l s) ls \<or> (atEnd \<and> s = []) then rmatch rs s i else None)"

text \<open>
  \<open>search re s k\<close> is the leftmost match of \<open>re\<close> in \<open>s\<close>, where \<open>k\<close> code units lie
  before \<open>s\<close>: the start of the match, its length and its capture offsets.
\<close>

fun search :: "atom list \<Rightarrow> string \<Rightarrow> nat \<Rightarrow> (nat \<times> nat \<times> nat list) option" where
  "search re [] k = (case rmatch re [] 0 of Some (e, ms) \<Rightarrow> Some (k, e, ms) | None \<Rightarrow> None)"
| "search re (x # xs) k =
     (case rmatch re (x # xs) 0 of
        Some (e, ms) \<Rightarrow> Some (k, e, ms)
      | None \<Rightarrow> search re xs (Suc k))"

definition substring :: "string \<Rightarrow> nat \<Rightarrow> nat \<Rightarrow> string" where
  \<comment> \<open>\<open>s.substring(a, b)\<close> for \<open>a \<le> b\<close>\<close>
  "substring s a b = take (b - a) (drop a s)"

definition matchFirst :: "atom list \<Rightarrow> string \<Rightarrow> string option" where
  \<comment> \<open>Element 0 of \<open>s.match(re)\<close>: the text of the leftmost match, \<open>None\<close> for \<open>null\<close>.
     With the \<open>g\<close> flag the array holds every match, and element 0 is still the leftmost.\<close>
  "matchFirst re s =
     (case search re s 0 of Some (k, e, ms) \<Rightarrow> Some (substring s k (k + e)) | None \<Rightarrow> None)"

definition matchGroup :: "atom list \<Rightarrow> string \<Rightarrow> string option" where
  \<comment> \<open>Element 1 of \<open>s.match(re)\<close> without the \<open>g\<close> flag: the text of the first capture.\<close>
  "matchGroup re s =
     (case search re s 0 of
        Some (k, e, a # b # ms) \<Rightarrow> Some (substring s (k + a) (k + b))
      | _ \<Rightarrow> None)"

definition trim :: "string \<Rightarrow> string" where
  "trim s = rev (dropWhile isSpace (rev (dropWhile isSpace s)))"

definition lit :: "string \<Rightarrow> atom list" where
  "lit s = map Lit s"

definition litI :: "string \<Rightarrow> atom list" where
  "litI s = map LitI s"

text \<open>
  A match consumes what lies under it and nothing more; the global replacement below
  terminates for that reason.
\<close>

lemma rmatch_bounds: "rmatch re s i = Some (e, ms) \<Longrightarrow> i \<le> e \<and> e \<le> i + length s"
proof (induction re s i arbitrary: e ms rule: rmatch.induct)
qed (fastforce split: if_splits option.splits prod.splits)+

lemma search_bounds:
  "search re s k = Some (k', e, ms) \<Longrightarrow> k \<le> k' \<and> k' + e \<le> k + length s"
proof (induction re s k arbitrary: k' e ms rule: search.induct)
qed (fastforce split: option.splits prod.splits dest: rmatch_bounds)+

text \<open>
  \<open>s.replace(re, rep)\<close> for a regular expression with the \<open>g\<close> flag and a replacement
  without \<open>$\<close> patterns: every match, left to right, each search starting where the last
  match ended (one code unit further after an empty match).
\<close>

function replaceAll :: "atom list \<Rightarrow> string \<Rightarrow> string \<Rightarrow> string" where
  "replaceAll re rep s =
     (case search re s 0 of
        None \<Rightarrow> s
      | Some (k, e, ms) \<Rightarrow>
          if e = 0 then
            (case drop k s of
               [] \<Rightarrow> take k s @ rep
             | x # xs \<Rightarrow> take k s @ rep @ x # replaceAll re rep xs)
          else take k s @ rep @ replaceAll re rep (drop (k + e) s))"
  by pat_completeness auto
termination
proof (relation "measure (\<lambda>(re, rep, s). length s)", goal_cases)
  case 1
  show ?case by simp
next
  case (2 re rep s x2 k y e ms x xs)
  then have "length (drop k s) = Suc (length xs)" by simp
  then show ?case by simp
next
  case (3 re rep s x2 k y e ms)
  then show ?case using search_bounds [of re s 0 k e ms] by auto
qed

declare replaceAll.simps [simp del]

text \<open>
  \<open>s.split(/\s+/)\<close>: the pieces of \<open>s\<close> between the maximal runs of white space (a run
  at either end leaves an empty piece there). \<open>cur\<close> is the piece being read, reversed;
  \<open>inSep\<close> says that the last code unit was white space.
\<close>

fun splitRuns :: "(char \<Rightarrow> bool) \<Rightarrow> string \<Rightarrow> string \<Rightarrow> bool \<Rightarrow> string list" where
  "splitRuns p [] cur inSep = [rev cur]"
| "splitRuns p (x # xs) cur inSep =
     (if p x then (if inSep then splitRuns p xs cur True else rev cur # splitRuns p xs [] True)
      else splitRuns p xs (x # cur) False)"

definition splitSpaces :: "string \<Rightarrow> string list" where
  "splitSpaces s = splitRuns isSpace s [] False"

text \<open>\<open>s.split(",")\<close>: the pieces between the commas.\<close>

fun splitOn :: "char \<Rightarrow> string \<Rightarrow> string \<Rightarrow> string list" where
  "splitOn c [] cur = [rev cur]"
| "splitOn c (x # xs) cur = (if x = c then rev cur # splitOn c xs [] else splitOn c xs (x # cur))"

section \<open>The content extractor: \<open>extractContent\<close>\<close>

definition titlePattern :: "atom list" where
  \<comment> \<open>\<open>/<title[^>]*>([^<]+)<\/title>/i\<close>\<close>
  "titlePattern =
     litI ''<title'' @ [Many (notChar CHR ''>''), LitI CHR ''>'', Mark,
       Cls (notChar CHR ''<''), Many (notChar CHR ''<''), Mark] @ litI ''</title>''"

definition elementPattern :: "string \<Rightarrow> atom list" where
  \<comment> \<open>\<open>/<name[^>]*>([\s\S]*?)<\/name>/gi\<close>\<close>
  "elementPattern name =
     litI (''<'' @ name) @ [Many (notChar CHR ''>''), LitI CHR ''>'', Mark, Few anyChar, Mark]
       @ litI (''</'' @ name @ ''>'')"

definition scriptPattern :: "atom list" where
  \<comment> \<open>\<open>/<script[^>]*>[\s\S]*?<\/script>/gi\<close>\<close>
  "scriptPattern =
     litI ''<script'' @ [Many (notChar CHR ''>''), LitI CHR ''>'', Few anyChar] @ litI ''</script>''"

definition stylePattern :: "atom list" where
  \<comment> \<open>\<open>/<style[^>]*>[\s\S]*?<\/style>/gi\<close>\<close>
  "stylePattern =
     litI ''<style'' @ [Many (notChar CHR ''>''), LitI CHR ''>'', Few anyChar] @ litI ''</style>''"

definition divClassPattern :: "string \<Rightarrow> atom list" where
  \<comment> \<open>\<open>/<div[^>]*class="[^"]*word[^"]*"[^>]*>([\s\S]*?)<\/div>/gi\<close>\<close>
  "divClassPattern word =
     litI ''<div'' @ [Many (notChar CHR ''>'')] @ litI ''class='' @ [LitI (CHR 0x22),
       Many (notChar (CHR 0x22))] @ litI word @ [Many (notChar (CHR 0x22)), LitI (CHR 0x22),
       Many (notChar CHR ''>''), LitI CHR ''>'', Mark, Few anyChar, Mark] @ litI ''</div>''"

definition contentPatterns :: "atom list list" where
  "contentPatterns =
     [elementPattern ''article'',
      elementPattern ''main'',
      divClassPattern ''content'',
      divClassPattern ''post'',
      elementPattern ''body'']"

definition tagPattern :: "atom list" where
  \<comment> \<open>\<open>/<[^>]+>/g\<close>\<close>
  "tagPattern = [Lit CHR ''<'', Cls (notChar CHR ''>''), Many (notChar CHR ''>''), Lit CHR ''>'']"

definition spacesPattern :: "atom list" where
  \<comment> \<open>\<open>/\s+/g\<close>\<close>
  "spacesPattern = [Cls isSpace, Many isSpace]"

text \<open>
  The loop over \<open>contentPatterns\<close>: \<open>content\<close> starts empty and takes the first match
  (\<open>matches[0]\<close>, the text of the whole match, tags included) of the first pattern that
  has a non-empty one; the loop then breaks.
\<close>

fun firstRegion :: "atom list list \<Rightarrow> string \<Rightarrow> string" where
  "firstRegion [] cleanHtml = []"
| "firstRegion (pattern # patterns) cleanHtml =
     (case matchFirst pattern cleanHtml of
        Some m \<Rightarrow> if m \<noteq> [] then m else firstRegion patterns cleanHtml
      | None \<Rightarrow> firstRegion patterns cleanHtml)"

definition stripScripts :: "string \<Rightarrow> string" where
  "stripScripts html = replaceAll stylePattern [] (replaceAll scriptPattern [] html)"

definition selectRegion :: "string \<Rightarrow> string" where
  \<comment> \<open>Lines 37 to 48: the region of the stripped document that the text is taken from.\<close>
  "selectRegion cleanHtml =
     (let content = firstRegion contentPatterns cleanHtml
      in if content = [] then cleanHtml else content)"

definition cleanText :: "string \<Rightarrow> string" where
  \<comment> \<open>Lines 51 to 57.\<close>
  "cleanText content =
     trim (replaceAll (lit ''&gt;'') ''>'' (replaceAll (lit ''&lt;'') ''<''
       (replaceAll (lit ''&amp;'') ''&'' (replaceAll (lit ''&nbsp;'') '' ''
         (replaceAll spacesPattern '' '' (replaceAll tagPattern '' '' content))))))"

definition extractContent :: "string \<Rightarrow> string \<times> string \<times> nat" where
  \<comment> \<open>The result is \<open>{title, content, wordCount}\<close>.\<close>
  "extractContent html =
     (let title = (case matchGroup titlePattern html of Some g \<Rightarrow> trim g | None \<Rightarrow> []);
          cleanHtml = stripScripts html;
          content = cleanText (selectRegion cleanHtml);
          wordCount = length (filter (\<lambda>word. length word > 0) (splitSpaces content))
      in (title, content, wordCount))"

section \<open>What the content patterns match\<close>









section \<open>Errors, the environment and the store\<close>

text \<open>
  A thrown value is an \<open>Error\<close> with its message, or something that is not an instance of
  \<open>Error\<close> (the handlers then report \<open>"Unknown error"\<close>).
\<close>

datatype exn = Error string | NonError

definition errorMessageOf :: "exn \<Rightarrow> string" where
  \<comment> \<open>\<open>error instanceof Error ? error.message : "Unknown error"\<close>\<close>
  "errorMessageOf e = (case e of Error m \<Rightarrow> m | NonError \<Rightarrow> ''Unknown error'')"

datatype status = Pending | Completed | Failed

text \<open>The table \<open>analyzed_urls\<close> of \<open>db/schema.ts\<close>; a nullable column is an option.\<close>

record analyzedUrl =
  rowId :: nat
  url :: string
  title :: "string option"
  content :: "string option"
  summary :: "string option"
  wordCount :: "nat option"
  analysisDate :: "string option"
  status :: status
  errorMessage :: "string option"
  contentType :: "string option"
  language :: "string option"
  createdAt :: string
  updatedAt :: string

text \<open>The table \<open>content_tags\<close>.\<close>

record contentTag =
  tagId :: nat
  urlId :: nat
  tag :: string
  confidence :: "real option"
  tagCreatedAt :: string

text \<open>
  The database: the rows of the two tables in insertion order, and the counters of their
  \<open>autoIncrement\<close> keys (SQLite's \<open>sqlite_sequence\<close>: the largest key ever given).
\<close>

record store =
  analyzedUrls :: "analyzedUrl list"
  contentTags :: "contentTag list"
  urlSeq :: nat
  tagSeq :: nat

datatype fetchResult =
    FetchThrows exn
  | Response nat string "exn + string"

datatype aiResult =
    AiThrows exn
  | AiResponse "string option"

datatype resendResult =
    ResendThrows exn
  | ResendResponse nat string "exn + string"

datatype callbackBody =
    CallbackCompleted nat analyzedUrl
  | CallbackFailed nat "string option"
  | CallbackBatch "(string \<times> (string + nat)) list"

text \<open>
  What a run does outside the store, in order: a \<open>fetch\<close> of a page, a run of the model
  on a prompt, a POST to the email provider (key, recipient, subject, body), a POST to a
  callback address.
\<close>

datatype event =
    Fetched string
  | ModelRun string
  | EmailPosted string string string string
  | CallbackPosted string callbackBody

text \<open>
  The environment answers what the code asks of the outside: the response to a GET of a
  url (\<open>Response status statusText text\<close>, where \<open>text\<close> is what \<open>response.text()\<close> gives),
  the model's reply to a prompt (\<open>AiResponse r\<close>, where \<open>r\<close> is the field \<open>response\<close> of the
  reply), the clock (the \<open>n\<close>th reading of \<open>new Date().toISOString()\<close>), the email
  provider's answer (\<open>ResendResponse status text id\<close>), and the HTML of the summary email
  (the template of \<open>sendSummaryEmail\<close>, which prints a date in the locale of the runtime).
\<close>

record env =
  fetch :: "string \<Rightarrow> fetchResult"
  run :: "string \<Rightarrow> aiResult"
  clock :: "nat \<Rightarrow> string"
  resend :: "string \<Rightarrow> string \<Rightarrow> string \<Rightarrow> string \<Rightarrow> resendResult"
  emailHtml :: "analyzedUrl \<Rightarrow> bool \<Rightarrow> string"
  RESEND_API_KEY :: "string option"

text \<open>The state a run threads: the database, the readings of the clock so far, the events.\<close>

record world =
  db :: store
  tick :: nat
  trace :: "event list"

definition newDate :: "env \<Rightarrow> world \<Rightarrow> string \<times> world" where
  \<comment> \<open>\<open>new Date().toISOString()\<close>\<close>
  "newDate e w = (clock e (tick w), w\<lparr>tick := Suc (tick w)\<rparr>)"

definition emit :: "event \<Rightarrow> world \<Rightarrow> world" where
  "emit ev w = w\<lparr>trace := trace w @ [ev]\<rparr>"

subsection \<open>Statements on the store\<close>

definition firstRow :: "'a list \<Rightarrow> 'a option" where
  \<comment> \<open>\<open>const [x] = rows\<close>: the first row, \<open>undefined\<close> when there is none.\<close>
  "firstRow rows = (case rows of [] \<Rightarrow> None | r # _ \<Rightarrow> Some r)"

definition selectByUrl :: "store \<Rightarrow> string \<Rightarrow> analyzedUrl list" where
  "selectByUrl d u = filter (\<lambda>r. url r = u) (analyzedUrls d)"

definition selectById :: "store \<Rightarrow> nat \<Rightarrow> analyzedUrl list" where
  "selectById d i = filter (\<lambda>r. rowId r = i) (analyzedUrls d)"

definition uniqueViolation :: exn where
  "uniqueViolation = Error ''UNIQUE constraint failed: analyzed_urls.url''"

definition foreignKeyViolation :: exn where
  "foreignKeyViolation = Error ''FOREIGN KEY constraint failed''"

definition insertUrl ::
  "store \<Rightarrow> string \<Rightarrow> status \<Rightarrow> string option \<Rightarrow> string \<Rightarrow> string \<Rightarrow> exn + (analyzedUrl \<times> store)" where
  \<comment> \<open>\<open>db.insert(analyzedUrls).values({url, status, errorMessage?, createdAt, updatedAt})
     .returning()\<close>. The column \<open>url\<close> is \<open>unique()\<close>: a row whose url is taken is refused.\<close>
  "insertUrl d u st em created updated =
     (if u \<in> set (map url (analyzedUrls d)) then Inl uniqueViolation
      else
        let i = Suc (fold max (map rowId (analyzedUrls d)) (urlSeq d));
            row = \<lparr>rowId = i, url = u, title = None, content = None, summary = None,
                   wordCount = None, analysisDate = None, status = st, errorMessage = em,
                   contentType = None, language = None, createdAt = created,
                   updatedAt = updated\<rparr>
        in Inr (row, d\<lparr>analyzedUrls := analyzedUrls d @ [row], urlSeq := i\<rparr>))"

definition updateById ::
  "store \<Rightarrow> nat \<Rightarrow> (analyzedUrl \<Rightarrow> analyzedUrl) \<Rightarrow> analyzedUrl list \<times> store" where
  \<comment> \<open>\<open>db.update(analyzedUrls).set(...).where(eq(analyzedUrls.id, i)).returning()\<close>:
     the rows after the update, and the new database.\<close>
  "updateById d i f =
     (map f (selectById d i),
      d\<lparr>analyzedUrls := map (\<lambda>r. if rowId r = i then f r else r) (analyzedUrls d)\<rparr>)"

definition insertTag :: "store \<Rightarrow> nat \<Rightarrow> string \<Rightarrow> real \<Rightarrow> string \<Rightarrow> exn + store" where
  \<comment> \<open>\<open>db.insert(contentTags).values({urlId, tag, confidence, createdAt})\<close>; \<open>urlId\<close>
     references \<open>analyzedUrls.id\<close>.\<close>
  "insertTag d i t c created =
     (if i \<notin> set (map rowId (analyzedUrls d)) then Inl foreignKeyViolation
      else
        let k = Suc (fold max (map tagId (contentTags d)) (tagSeq d));
            row = \<lparr>tagId = k, urlId = i, tag = t, confidence = Some c, tagCreatedAt = created\<rparr>
        in Inr (d\<lparr>contentTags := contentTags d @ [row], tagSeq := k\<rparr>))"

definition deleteById :: "store \<Rightarrow> nat \<Rightarrow> store" where
  \<comment> \<open>\<open>db.delete(analyzedUrls).where(eq(analyzedUrls.id, i))\<close>, with \<open>onDelete: "cascade"\<close>
     on the tags.\<close>
  "deleteById d i =
     (if i \<in> set (map rowId (analyzedUrls d)) then
        d\<lparr>analyzedUrls := filter (\<lambda>r. rowId r \<noteq> i) (analyzedUrls d),
          contentTags := filter (\<lambda>t. urlId t \<noteq> i) (contentTags d)\<rparr>
      else d)"

section \<open>The summarizer: \<open>generateSummary\<close>\<close>

definition lengthInstruction :: "string \<Rightarrow> string" where
  \<comment> \<open>\<open>lengthInstructions[summaryLength] || lengthInstructions.medium\<close>, for a
     \<open>summaryLength\<close> that does not name a property of \<open>Object.prototype\<close>.\<close>
  "lengthInstruction summaryLength =
     (if summaryLength = ''short'' then ''in 2-3 sentences''
      else if summaryLength = ''medium'' then ''in 1-2 paragraphs''
      else if summaryLength = ''long'' then ''in 3-4 paragraphs with detailed analysis''
      else ''in 1-2 paragraphs'')"

definition promptOf :: "string \<Rightarrow> string \<Rightarrow> string" where
  "promptOf content' summaryLength =
     ''Please analyze the following content and provide:'' @ [CHR 0x0A]
     @ ''1. A summary '' @ lengthInstruction summaryLength @ [CHR 0x0A]
     @ ''2. 3-5 relevant tags (single words or short phrases)'' @ [CHR 0x0A, CHR 0x0A]
     @ ''Content:'' @ [CHR 0x0A]
     @ substring content' 0 4000 @ [CHR 0x0A, CHR 0x0A]
     @ ''Format your response as:'' @ [CHR 0x0A]
     @ ''SUMMARY: [your summary here]'' @ [CHR 0x0A]
     @ ''TAGS: tag1, tag2, tag3, tag4, tag5''"

definition summaryPattern :: "atom list" where
  \<comment> \<open>\<open>/SUMMARY:\s*(.*?)(?=TAGS:|$)/s\<close>\<close>
  "summaryPattern =
     lit ''SUMMARY:'' @ [Many isSpace, Mark, Few anyChar, Mark, Ahead [''TAGS:''] True]"

definition tagsPattern :: "atom list" where
  \<comment> \<open>\<open>/TAGS:\s*(.*?)$/s\<close>\<close>
  "tagsPattern = lit ''TAGS:'' @ [Many isSpace, Mark, Few anyChar, Mark, Eos]"

definition parseReply :: "string \<Rightarrow> string \<times> string list" where
  \<comment> \<open>Lines 97 to 104: the summary and the tags read from the model's reply.\<close>
  "parseReply result =
     (let summary = (case matchGroup summaryPattern result of
                       Some g \<Rightarrow> trim g
                     | None \<Rightarrow> substring result 0 300);
          tagsString = (case matchGroup tagsPattern result of Some g \<Rightarrow> trim g | None \<Rightarrow> []);
          tags = take 5 (filter (\<lambda>tag. length tag > 0) (map trim (splitOn CHR '','' tagsString [])))
      in (summary, tags))"

definition summaryAttempt :: "env \<Rightarrow> string \<Rightarrow> string \<Rightarrow> exn + (string \<times> string list)" where
  \<comment> \<open>The body of the \<open>try\<close> (lines 86 to 104).\<close>
  "summaryAttempt e content' summaryLength =
     (case run e (promptOf content' summaryLength) of
        AiThrows x \<Rightarrow> Inl x
      | AiResponse r \<Rightarrow> Inr (parseReply (case r of Some t \<Rightarrow> t | None \<Rightarrow> [])))"

definition fallbackSummary :: "string \<Rightarrow> string \<times> string list" where
  \<comment> \<open>The \<open>catch\<close> (lines 105 to 110).\<close>
  "fallbackSummary content' =
     (if length content' > 300 then substring content' 0 300 @ ''...'' else content', [])"

definition generateSummary ::
  "string \<Rightarrow> env \<Rightarrow> string option \<Rightarrow> world \<Rightarrow> (string \<times> string list) \<times> world" where
  \<comment> \<open>\<open>summaryLength\<close> is \<open>"medium"\<close> when the argument is \<open>undefined\<close>.\<close>
  "generateSummary content' e summaryLengthArg w =
     (let summaryLength = (case summaryLengthArg of Some l \<Rightarrow> l | None \<Rightarrow> ''medium'');
          w1 = emit (ModelRun (promptOf content' summaryLength)) w
      in (case summaryAttempt e content' summaryLength of
            Inr r \<Rightarrow> (r, w1)
          | Inl x \<Rightarrow> (fallbackSummary content', w1)))"

section \<open>The pipeline: \<open>analyzeUrl\<close>\<close>

record options =
  generate_tags :: "bool option"
  summary_length :: "string option"

fun showNat :: "nat \<Rightarrow> string" where
  "showNat n =
     (if n < 10 then [char_of (48 + n)] else showNat (n div 10) @ [char_of (48 + n mod 10)])"

declare showNat.simps [simp del]

definition isSubstring :: "string \<Rightarrow> string \<Rightarrow> bool" where
  \<comment> \<open>\<open>s.includes(sub)\<close>\<close>
  "isSubstring sub s = (search (lit sub) s 0 \<noteq> None)"

text \<open>The three \<open>set({...})\<close> clauses of the updates, on a row.\<close>

definition setPending :: "string \<Rightarrow> analyzedUrl \<Rightarrow> analyzedUrl" where
  \<comment> \<open>Lines 127 to 131.\<close>
  "setPending now r = r\<lparr>status := Pending, updatedAt := now, errorMessage := None\<rparr>"

definition setCompleted ::
  "string \<Rightarrow> string \<Rightarrow> string \<Rightarrow> nat \<Rightarrow> string \<Rightarrow> string \<Rightarrow> string
     \<Rightarrow> analyzedUrl \<Rightarrow> analyzedUrl" where
  \<comment> \<open>Lines 173 to 183.\<close>
  "setCompleted title' content' summary' wordCount' analysed contentType' now r =
     r\<lparr>title := Some title', content := Some content', summary := Some summary',
       wordCount := Some wordCount', analysisDate := Some analysed, status := Completed,
       contentType := Some contentType', language := Some ''en'', updatedAt := now\<rparr>"

definition setFailed :: "string \<Rightarrow> string \<Rightarrow> analyzedUrl \<Rightarrow> analyzedUrl" where
  \<comment> \<open>Lines 208 to 212.\<close>
  "setFailed message now r =
     r\<lparr>status := Failed, errorMessage := Some message, updatedAt := now\<rparr>"

definition enterPending ::
  "env \<Rightarrow> string \<Rightarrow> analyzedUrl option \<Rightarrow> world \<Rightarrow> (exn + analyzedUrl) \<times> world" where
  \<comment> \<open>Lines 125 to 143: the value of \<open>urlRecord\<close>, or what the statement threw.\<close>
  "enterPending e u existing w =
     (case existing of
        Some ex \<Rightarrow>
          (let (now, w1) = newDate e w;
               (rows, d) = updateById (db w1) (rowId ex) (setPending now)
           in (Inr (ex\<lparr>status := Pending\<rparr>), w1\<lparr>db := d\<rparr>))
      | None \<Rightarrow>
          (let (created, w1) = newDate e w;
               (updated, w2) = newDate e w1
           in (case insertUrl (db w2) u Pending None created updated of
                 Inl x \<Rightarrow> (Inl x, w2)
               | Inr (row, d) \<Rightarrow> (Inr row, w2\<lparr>db := d\<rparr>))))"

definition typeErrorReading :: "string \<Rightarrow> exn" where
  \<comment> \<open>What reading a property of \<open>undefined\<close> throws.\<close>
  "typeErrorReading prop =
     Error (''Cannot read properties of undefined (reading '' @ [CHR 0x27] @ prop @ [CHR 0x27] @ '')'')"

fun insertTags ::
  "env \<Rightarrow> analyzedUrl option \<Rightarrow> string list \<Rightarrow> world \<Rightarrow> exn option \<times> world" where
  \<comment> \<open>The loop of lines 189 to 197; \<open>updatedRecord.id\<close> throws when \<open>updatedRecord\<close> is
     \<open>undefined\<close>.\<close>
  "insertTags e updatedRecord [] w = (None, w)"
| "insertTags e updatedRecord (t # ts) w =
     (case updatedRecord of
        None \<Rightarrow> (Some (typeErrorReading ''id''), w)
      | Some r \<Rightarrow>
          (let (now, w1) = newDate e w
           in (case insertTag (db w1) (rowId r) t 0.8 now of
                 Inl x \<Rightarrow> (Some x, w1)
               | Inr d \<Rightarrow> insertTags e updatedRecord ts (w1\<lparr>db := d\<rparr>))))"

definition classify :: "string \<Rightarrow> string" where
  \<comment> \<open>Lines 167 to 169.\<close>
  "classify u =
     (if isSubstring ''blog'' u then ''blog''
      else if isSubstring ''news'' u then ''news''
      else ''article'')"

definition commitSuccess ::
  "env \<Rightarrow> string \<Rightarrow> options \<Rightarrow> analyzedUrl \<Rightarrow> string \<times> string \<times> nat \<Rightarrow> world
     \<Rightarrow> (exn + analyzedUrl option) \<times> world" where
  \<comment> \<open>Lines 163 to 200, for the extracted \<open>(title, content, wordCount)\<close>.\<close>
  "commitSuccess e u opts urlRecord extracted w =
     (case extracted of (title', content', wordCount') \<Rightarrow>
        let ((summary', tags), w1) = generateSummary content' e (summary_length opts) w;
            contentType' = classify u;
            (analysed, w2) = newDate e w1;
            (updated, w3) = newDate e w2;
            (rows, d) = updateById (db w3) (rowId urlRecord)
               (setCompleted title' content' summary' wordCount' analysed contentType' updated);
            updatedRecord = firstRow rows;
            w4 = w3\<lparr>db := d\<rparr>
        in if generate_tags opts = Some True \<and> length tags > 0 then
             (case insertTags e updatedRecord tags w4 of
                (Some x, w5) \<Rightarrow> (Inl x, w5)
              | (None, w5) \<Rightarrow> (Inr updatedRecord, w5))
           else (Inr updatedRecord, w4))"

definition analyzeBody ::
  "env \<Rightarrow> string \<Rightarrow> options \<Rightarrow> analyzedUrl \<Rightarrow> world \<Rightarrow> (exn + analyzedUrl option) \<times> world" where
  \<comment> \<open>Lines 146 to 200, after \<open>urlRecord\<close> is set.\<close>
  "analyzeBody e u opts urlRecord w =
     (let w1 = emit (Fetched u) w
      in (case fetch e u of
            FetchThrows x \<Rightarrow> (Inl x, w1)
          | Response code statusText body \<Rightarrow>
              (if \<not> (200 \<le> code \<and> code \<le> 299) then
                 (Inl (Error (''HTTP '' @ showNat code @ '': '' @ statusText)), w1)
               else
                 (case body of
                    Inl x \<Rightarrow> (Inl x, w1)
                  | Inr html \<Rightarrow>
                      (case extractContent html of (title', content', wordCount') \<Rightarrow>
                         if content' = [] \<or> length content' < 50 then
                           (Inl (Error ''Insufficient content extracted from URL''), w1)
                         else
                           commitSuccess e u opts urlRecord (title', content', wordCount') w1)))))"

definition commitFailure ::
  "env \<Rightarrow> string \<Rightarrow> analyzedUrl option \<Rightarrow> exn \<Rightarrow> world \<Rightarrow> (exn + analyzedUrl option) \<times> world" where
  \<comment> \<open>The \<open>catch\<close> (lines 202 to 226): the error is thrown again, unless the insert of
     the failed row throws first.\<close>
  "commitFailure e u urlRecord error w =
     (let message = errorMessageOf error
      in case urlRecord of
           Some rec \<Rightarrow>
             (let (now, w1) = newDate e w;
                  (rows, d) = updateById (db w1) (rowId rec) (setFailed message now)
              in (Inl error, w1\<lparr>db := d\<rparr>))
         | None \<Rightarrow>
             (let (created, w1) = newDate e w;
                  (updated, w2) = newDate e w1
              in (case insertUrl (db w2) u Failed (Some message) created updated of
                    Inl x \<Rightarrow> (Inl x, w2)
                  | Inr (row, d) \<Rightarrow> (Inl error, w2\<lparr>db := d\<rparr>))))"

definition isCompleted :: "analyzedUrl option \<Rightarrow> bool" where
  \<comment> \<open>\<open>existing && existing.status === "completed"\<close>\<close>
  "isCompleted existing = (case existing of Some ex \<Rightarrow> status ex = Completed | None \<Rightarrow> False)"

definition analyzeUrl ::
  "env \<Rightarrow> string \<Rightarrow> options \<Rightarrow> world \<Rightarrow> (exn + analyzedUrl option) \<times> world" where
  \<comment> \<open>The result is the returned record (\<open>None\<close> for \<open>undefined\<close>) or the thrown error.\<close>
  "analyzeUrl e u opts w =
     (let existing = firstRow (selectByUrl (db w) u)
      in if isCompleted existing then (Inr existing, w)
         else
           (case enterPending e u existing w of
              (Inl x, w1) \<Rightarrow> commitFailure e u None x w1
            | (Inr urlRecord, w1) \<Rightarrow>
                (case analyzeBody e u opts urlRecord w1 of
                   (Inl x, w2) \<Rightarrow> commitFailure e u (Some urlRecord) x w2
                 | (Inr r, w2) \<Rightarrow> (Inr r, w2))))"

section \<open>The email notifier: \<open>sendSummaryEmail\<close>\<close>

datatype emailResult =
    EmailSent string
  | EmailNotSent string

definition sendSummaryEmail ::
  "env \<Rightarrow> string \<Rightarrow> string \<Rightarrow> string \<Rightarrow> analyzedUrl option \<Rightarrow> bool \<Rightarrow> world
     \<Rightarrow> emailResult \<times> world" where
  \<comment> \<open>Lines 230 to 312. \<open>EmailSent id\<close> is \<open>{success: true, emailId: id}\<close>,
     \<open>EmailNotSent m\<close> is \<open>{success: false, error: m}\<close>.\<close>
  "sendSummaryEmail e resendApiKey to subject summary' includeFullContent w =
     (case summary' of
        None \<Rightarrow> (EmailNotSent (errorMessageOf (typeErrorReading ''title'')), w)
      | Some r \<Rightarrow>
          (let html = emailHtml e r includeFullContent;
               w1 = emit (EmailPosted resendApiKey to subject html) w
           in (case resend e resendApiKey to subject html of
                 ResendThrows x \<Rightarrow>
                   (EmailNotSent (case x of Error m \<Rightarrow> m | NonError \<Rightarrow> ''Unknown email error''), w1)
               | ResendResponse code errorData json \<Rightarrow>
                   (if \<not> (200 \<le> code \<and> code \<le> 299) then
                      (EmailNotSent (''Resend API error: '' @ showNat code @ '' '' @ errorData), w1)
                    else
                      (case json of
                         Inl x \<Rightarrow>
                           (EmailNotSent
                              (case x of Error m \<Rightarrow> m | NonError \<Rightarrow> ''Unknown email error''), w1)
                       | Inr i \<Rightarrow> (EmailSent i, w1))))))"

section \<open>The delivery surface\<close>

text \<open>
  The parsed JSON body of a request: a field the body lacks is \<open>None\<close>. \<open>req_urls\<close> is
  \<open>None\<close> also when the field is not an array. A request is \<open>Inl x\<close> when
  \<open>await c.req.json()\<close> throws \<open>x\<close>.
\<close>

record body =
  req_url :: "string option"
  req_urls :: "string list option"
  req_options :: "options option"
  req_callback_url :: "string option"
  req_email :: "string option"
  req_subject :: "string option"
  req_generate_tags :: "bool option"
  req_summary_length :: "string option"
  req_include_full_content :: "bool option"

text \<open>
  The JSON of a response:
  \<open>PError error message\<close> is \<open>{error, message}\<close>;
  \<open>PStarted id\<close> is \<open>{analysis_id, status: "pending", message}\<close>;
  \<open>PResult id status result\<close> is \<open>{analysis_id, status, result}\<close>;
  \<open>PAnalysis result email\<close> is \<open>{success: true, analysis, email}\<close>;
  \<open>PBatch results\<close> is \<open>{batch_results}\<close>, an item being the url with the id of its
  completed analysis or with the message of its error;
  \<open>PMessage\<close> is \<open>{message}\<close>.
\<close>

datatype payload =
    PError string "string option"
  | PStarted nat
  | PResult nat status analyzedUrl
  | PAnalysis "analyzedUrl option" "emailResult option"
  | PBatch "(string \<times> (string + nat)) list"
  | PMessage string
  | PNotFound

type_synonym request = "exn + body"

type_synonym handler = "env \<Rightarrow> request \<Rightarrow> world \<Rightarrow> (nat \<times> payload) \<times> world"

definition truthy :: "string option \<Rightarrow> string option" where
  \<comment> \<open>A string field in a condition: \<open>undefined\<close> and \<open>""\<close> are falsy. The result is
     the value of a truthy field.\<close>
  "truthy s = (case s of None \<Rightarrow> None | Some v \<Rightarrow> if v = [] then None else Some v)"

definition defaultOptions :: "options option \<Rightarrow> options" where
  \<comment> \<open>\<open>options = {}\<close> in the destructuring of the body.\<close>
  "defaultOptions o' =
     (case o' of Some opts \<Rightarrow> opts | None \<Rightarrow> \<lparr>generate_tags = None, summary_length = None\<rparr>)"

definition messageOf :: "exn \<Rightarrow> string option" where
  \<comment> \<open>\<open>error.message\<close>\<close>
  "messageOf x = (case x of Error m \<Rightarrow> Some m | NonError \<Rightarrow> None)"

definition background ::
  "env \<Rightarrow> string \<Rightarrow> options \<Rightarrow> string \<Rightarrow> analyzedUrl \<Rightarrow> world \<Rightarrow> world" where
  \<comment> \<open>The promise given to \<open>waitUntil\<close> (lines 577 to 594), run to its end: the analysis,
     then the POST to the callback address. An error thrown in \<open>then\<close> is caught by the
     \<open>catch\<close> that follows it.\<close>
  "background e u opts callback_url record w =
     (case analyzeUrl e u opts w of
        (Inr (Some result), w1) \<Rightarrow>
          emit (CallbackPosted callback_url (CallbackCompleted (rowId result) result)) w1
      | (Inr None, w1) \<Rightarrow>
          emit (CallbackPosted callback_url
                  (CallbackFailed (rowId record) (messageOf (typeErrorReading ''id'')))) w1
      | (Inl x, w1) \<Rightarrow>
          emit (CallbackPosted callback_url (CallbackFailed (rowId record) (messageOf x))) w1)"

definition webhookAnalyze :: handler where
  \<comment> \<open>The first \<open>app.post("/webhook/analyze", ...)\<close> (lines 554 to 612).\<close>
  "webhookAnalyze e req w =
     (case req of
        Inl x \<Rightarrow> ((500, PError ''Analysis failed'' (Some (errorMessageOf x))), w)
      | Inr b \<Rightarrow>
          (case truthy (req_url b) of
             None \<Rightarrow> ((400, PError ''URL is required'' None), w)
           | Some u \<Rightarrow>
               (case truthy (req_callback_url b) of
                  Some callback_url \<Rightarrow>
                    (let (created, w1) = newDate e w;
                         (updated, w2) = newDate e w1
                     in (case insertUrl (db w2) u Pending None created updated of
                           Inl x \<Rightarrow>
                             ((500, PError ''Analysis failed'' (Some (errorMessageOf x))), w2)
                         | Inr (record, d) \<Rightarrow>
                             ((200, PStarted (rowId record)),
                              background e u (defaultOptions (req_options b)) callback_url record
                                (w2\<lparr>db := d\<rparr>))))
                | None \<Rightarrow>
                    (case analyzeUrl e u (defaultOptions (req_options b)) w of
                       (Inl x, w1) \<Rightarrow>
                         ((500, PError ''Analysis failed'' (Some (errorMessageOf x))), w1)
                     | (Inr None, w1) \<Rightarrow>
                         ((500, PError ''Analysis failed''
                                  (Some (errorMessageOf (typeErrorReading ''id'')))), w1)
                     | (Inr (Some result), w1) \<Rightarrow>
                         ((200, PResult (rowId result) (status result) result), w1)))))"

fun batchLoop ::
  "env \<Rightarrow> options \<Rightarrow> string list \<Rightarrow> world \<Rightarrow> (string \<times> (string + nat)) list \<times> world" where
  \<comment> \<open>The loop of lines 631 to 642.\<close>
  "batchLoop e opts [] w = ([], w)"
| "batchLoop e opts (u # urls) w =
     (case analyzeUrl e u opts w of
        (r, w1) \<Rightarrow>
          (let item = (case r of
                         Inr (Some result) \<Rightarrow> (u, Inr (rowId result))
                       | Inr None \<Rightarrow> (u, Inl (errorMessageOf (typeErrorReading ''id'')))
                       | Inl x \<Rightarrow> (u, Inl (errorMessageOf x)))
           in (case batchLoop e opts urls w1 of (results, w2) \<Rightarrow> (item # results, w2))))"

definition webhookBatchAnalyze :: handler where
  \<comment> \<open>The first \<open>app.post("/webhook/batch-analyze", ...)\<close> (lines 615 to 662).\<close>
  "webhookBatchAnalyze e req w =
     (case req of
        Inl x \<Rightarrow> ((500, PError ''Batch analysis failed'' (Some (errorMessageOf x))), w)
      | Inr b \<Rightarrow>
          (case req_urls b of
             None \<Rightarrow> ((400, PError ''URLs array is required'' None), w)
           | Some urls \<Rightarrow>
               (if length urls = 0 then ((400, PError ''URLs array is required'' None), w)
                else if length urls > 10 then ((400, PError ''Maximum 10 URLs per batch'' None), w)
                else
                  (case batchLoop e (defaultOptions (req_options b)) urls w of
                     (results, w1) \<Rightarrow>
                       (case truthy (req_callback_url b) of
                          Some callback_url \<Rightarrow>
                            ((200, PBatch results),
                             emit (CallbackPosted callback_url (CallbackBatch results)) w1)
                        | None \<Rightarrow> ((200, PBatch results), w1))))))"

definition emailSubjectOf :: "string option \<Rightarrow> analyzedUrl option \<Rightarrow> exn + string" where
  \<comment> \<open>\<open>subject || `Analysis Summary: ${result.title || 'Untitled'}`\<close>\<close>
  "emailSubjectOf subject result =
     (case truthy subject of
        Some s \<Rightarrow> Inr s
      | None \<Rightarrow>
          (case result of
             None \<Rightarrow> Inl (typeErrorReading ''title'')
           | Some r \<Rightarrow>
               Inr (''Analysis Summary: '' @
                      (case truthy (title r) of Some t \<Rightarrow> t | None \<Rightarrow> ''Untitled''))))"

definition webhookAnalyzeEmail :: handler where
  \<comment> \<open>The second \<open>app.post("/webhook/analyze", ...)\<close> (lines 834 to 876).\<close>
  "webhookAnalyzeEmail e req w =
     (case req of
        Inl x \<Rightarrow> ((500, PError ''Failed to analyze URL'' (Some (errorMessageOf x))), w)
      | Inr b \<Rightarrow>
          (case truthy (req_url b) of
             None \<Rightarrow> ((400, PError ''URL is required'' None), w)
           | Some u \<Rightarrow>
               (case analyzeUrl e u
                       \<lparr>generate_tags = req_generate_tags b,
                        summary_length = req_summary_length b\<rparr> w of
                  (Inl x, w1) \<Rightarrow>
                    ((500, PError ''Failed to analyze URL'' (Some (errorMessageOf x))), w1)
                | (Inr result, w1) \<Rightarrow>
                    (case (truthy (req_email b), truthy (RESEND_API_KEY e)) of
                       (Some email, Some key) \<Rightarrow>
                         (case emailSubjectOf (req_subject b) result of
                            Inl x \<Rightarrow>
                              ((500, PError ''Failed to analyze URL'' (Some (errorMessageOf x))), w1)
                          | Inr emailSubject \<Rightarrow>
                              (case sendSummaryEmail e key email emailSubject result
                                      (req_include_full_content b = Some True) w1 of
                                 (emailResult, w2) \<Rightarrow>
                                   ((200, PAnalysis result (Some emailResult)), w2)))
                     | _ \<Rightarrow> ((200, PAnalysis result None), w1)))))"


text \<open>
  The routes of the POST handlers above, in the order \<open>index.ts\<close> registers them. Hono
  runs the handlers that match a request in the order of their registration, and a
  handler that returns a response without calling \<open>next\<close> ends the request: the first
  route that matches answers.
\<close>

definition routes :: "(string \<times> string \<times> handler) list" where
  "routes =
     [(''POST'', ''/webhook/analyze'', webhookAnalyze),
      (''POST'', ''/webhook/batch-analyze'', webhookBatchAnalyze),
      (''POST'', ''/webhook/analyze'', webhookAnalyzeEmail)]"

fun dispatch ::
  "(string \<times> string \<times> handler) list \<Rightarrow> string \<Rightarrow> string \<Rightarrow> handler" where
  "dispatch [] m p e req w = ((404, PNotFound), w)"
| "dispatch ((m', p', h) # rs) m p e req w =
     (if m' = m \<and> p' = p then h e req w else dispatch rs m p e req w)"

subsection \<open>The tool \<open>analyze_url\<close>\<close>

definition showOpt :: "string option \<Rightarrow> string" where
  \<comment> \<open>A nullable column in a template literal.\<close>
  "showOpt s = (case s of Some v \<Rightarrow> v | None \<Rightarrow> ''null'')"

definition showStatus :: "status \<Rightarrow> string" where
  "showStatus st = (case st of Pending \<Rightarrow> ''pending'' | Completed \<Rightarrow> ''completed'' | Failed \<Rightarrow> ''failed'')"

definition analyzeUrlTool :: "env \<Rightarrow> string \<Rightarrow> string \<Rightarrow> world \<Rightarrow> (string \<times> bool) \<times> world" where
  \<comment> \<open>The handler of the tool (lines 331 to 353), for arguments that passed the schema:
     the text of the content block, and \<open>isError\<close>.\<close>
  "analyzeUrlTool e u summaryLength w =
     (case analyzeUrl e u \<lparr>generate_tags = Some True, summary_length = Some summaryLength\<rparr> w of
        (Inr (Some result), w1) \<Rightarrow>
          ((''Analysis completed for: '' @ u @ [CHR 0x0A, CHR 0x0A]
             @ ''Title: '' @ showOpt (title result) @ [CHR 0x0A]
             @ ''Summary: '' @ showOpt (summary result) @ [CHR 0x0A]
             @ ''Word Count: '' @ showOpt (map_option showNat (wordCount result)) @ [CHR 0x0A]
             @ ''Status: '' @ showStatus (status result), False), w1)
      | (Inr None, w1) \<Rightarrow>
          ((''Error analyzing URL: '' @ errorMessageOf (typeErrorReading ''title''), True), w1)
      | (Inl x, w1) \<Rightarrow> ((''Error analyzing URL: '' @ errorMessageOf x, True), w1))"

section \<open>Reachable stores\<close>

text \<open>
  The statements the code issues on the store: the two inserts into \<open>analyzed_urls\<close>, the
  three updates by id (none of which sets \<open>id\<close> or \<open>url\<close>), the insert of a tag and the
  delete by id. A store is reachable when a sequence of these statements, each with any
  arguments, leads to it from the empty database; a statement the database refuses
  leaves the store as it was. Every interleaving of the handlers above is such a sequence.
\<close>

definition emptyStore :: store where
  "emptyStore = \<lparr>analyzedUrls = [], contentTags = [], urlSeq = 0, tagSeq = 0\<rparr>"

inductive reachable :: "store \<Rightarrow> bool" where
  empty: "reachable emptyStore"
| inserted: "reachable d \<Longrightarrow> insertUrl d u st em created updated = Inr (row, d') \<Longrightarrow> reachable d'"
| updated: "reachable d \<Longrightarrow> (\<And>r. rowId (f r) = rowId r \<and> url (f r) = url r)
     \<Longrightarrow> reachable (snd (updateById d i f))"
| tagged: "reachable d \<Longrightarrow> insertTag d i t c created = Inr d' \<Longrightarrow> reachable d'"
| deleted: "reachable d \<Longrightarrow> reachable (deleteById d i)"

section \<open>Concrete inputs\<close>

text \<open>A page with enough text, a reply of the model, and worlds to run the pipeline in.\<close>

definition goodHtml :: string where
  "goodHtml = ''<html><title>T</title><body><p>Hello world this is a sufficiently long test paragraph for extraction</p></body></html>''"

definition goodEnv :: env where
  "goodEnv =
     \<lparr>fetch = (\<lambda>u. Response 200 ''OK'' (Inr goodHtml)),
      run = (\<lambda>p. AiResponse (Some ''SUMMARY: A page. TAGS: a, b, c, d, e, f, g, h'')),
      clock = (\<lambda>n. ''2025-01-01T00:00:0'' @ showNat n @ ''.000Z''),
      resend = (\<lambda>k t s h. ResendResponse 200 [] (Inr ''email-1'')),
      emailHtml = (\<lambda>r full. ''<div>'' @ showOpt (summary r) @ ''</div>''),
      RESEND_API_KEY = Some ''re_key''\<rparr>"

definition emptyWorld :: world where
  "emptyWorld = \<lparr>db = emptyStore, tick = 0, trace = []\<rparr>"

definition doneRow :: analyzedUrl where
  "doneRow =
     \<lparr>rowId = 1, url = ''https://good.example'', title = Some ''T'',
      content = Some ''Hello world'', summary = Some ''A page.'', wordCount = Some 2,
      analysisDate = Some ''2025-01-01T00:00:00.000Z'', status = Completed,
      errorMessage = None, contentType = Some ''article'', language = Some ''en'',
      createdAt = ''2025-01-01T00:00:00.000Z'', updatedAt = ''2025-01-01T00:00:00.000Z''\<rparr>"

definition doneWorld :: world where
  "doneWorld =
     \<lparr>db = \<lparr>analyzedUrls = [doneRow], contentTags = [], urlSeq = 1, tagSeq = 0\<rparr>,
      tick = 4, trace = []\<rparr>"

definition elevenUrls :: body where
  "elevenUrls =
     \<lparr>req_url = None,
      req_urls = Some (replicate 11 ''https://good.example''),
      req_options = None, req_callback_url = None, req_email = None, req_subject = None,
      req_generate_tags = None, req_summary_length = None, req_include_full_content = None\<rparr>"

definition shortEnv :: env where
  "shortEnv = goodEnv\<lparr>fetch := (\<lambda>u. Response 200 ''OK'' (Inr ''<p>Hi</p>''))\<rparr>"

definition downEnv :: env where
  "downEnv = goodEnv\<lparr>run := (\<lambda>p. AiThrows (Error ''model unavailable''))\<rparr>"

definition failedRow :: analyzedUrl where
  "failedRow =
     \<lparr>rowId = 1, url = ''https://good.example'', title = None, content = None,
      summary = None, wordCount = None, analysisDate = None, status = Failed,
      errorMessage = Some ''HTTP 503: Service Unavailable'', contentType = None,
      language = None, createdAt = ''2025-01-01T00:00:00.000Z'',
      updatedAt = ''2025-01-01T00:00:02.000Z''\<rparr>"

definition failedWorld :: world where
  "failedWorld =
     \<lparr>db = \<lparr>analyzedUrls = [failedRow], contentTags = [], urlSeq = 1, tagSeq = 0\<rparr>,
      tick = 3, trace = []\<rparr>"

text \<open>The emails a world has posted to the provider.\<close>

definition isEmailPosted :: "event \<Rightarrow> bool" where
  "isEmailPosted ev = (case ev of EmailPosted k t s h \<Rightarrow> True | _ \<Rightarrow> False)"

definition emailsOf :: "world \<Rightarrow> event list" where
  "emailsOf w = filter isEmailPosted (trace w)"

text \<open>
  \<open>quiet w w'\<close>: going from \<open>w\<close> to \<open>w'\<close> keeps a reachable store reachable and posts no
  email.
\<close>

definition quiet :: "world \<Rightarrow> world \<Rightarrow> bool" where
  "quiet w w' = ((reachable (db w) \<longrightarrow> reachable (db w')) \<and> emailsOf w' = emailsOf w)"

definition emailRequest :: body where
  "emailRequest =
     \<lparr>req_url = Some ''https://good.example'', req_urls = None, req_options = None,
      req_callback_url = None, req_email = Some ''a@b.com'', req_subject = None,
      req_generate_tags = Some True, req_summary_length = None,
      req_include_full_content = None\<rparr>"

section \<open>Lemmas on the store and on the stages of the pipeline\<close>

subsection \<open>Rows, lookups and the stages\<close>

lemma analyzeUrl_completed:
  "firstRow (selectByUrl (db w) u) = Some ex \<Longrightarrow> status ex = Completed
     \<Longrightarrow> analyzeUrl e u opts w = (Inr (Some ex), w)"
  by (simp add: analyzeUrl_def isCompleted_def)

lemma analyzeUrl_not_completed:
  "\<not> isCompleted (firstRow (selectByUrl (db w) u))
     \<Longrightarrow> analyzeUrl e u opts w =
       (case enterPending e u (firstRow (selectByUrl (db w) u)) w of
          (Inl x, w1) \<Rightarrow> commitFailure e u None x w1
        | (Inr urlRecord, w1) \<Rightarrow>
            (case analyzeBody e u opts urlRecord w1 of
               (Inl x, w2) \<Rightarrow> commitFailure e u (Some urlRecord) x w2
             | (Inr r, w2) \<Rightarrow> (Inr r, w2)))"
  by (simp add: analyzeUrl_def)

lemma firstRow_filter_Some:
  "firstRow (filter P rows) = Some r \<Longrightarrow> r \<in> set rows \<and> P r"
  by (induction rows) (auto simp add: firstRow_def split: if_splits)

lemma firstRow_filter_None:
  "firstRow (filter P rows) = None \<Longrightarrow> r \<in> set rows \<Longrightarrow> \<not> P r"
  by (induction rows) (auto simp add: firstRow_def split: if_splits)

lemma firstRow_map: "firstRow (map g rows) = map_option g (firstRow rows)"
  by (cases rows) (simp_all add: firstRow_def)

lemma filter_map_preserving:
  "(\<And>r. P (g r) = P r) \<Longrightarrow> filter P (map g rows) = map g (filter P rows)"
  by (induction rows) simp_all

lemma fold_max_ge: "(i::nat) \<in> set xs \<Longrightarrow> i \<le> fold max xs a"
proof (induction xs arbitrary: a)
  case Nil then show ?case by simp
next
  case (Cons x xs)
  have mono: "\<And>a b. (a::nat) \<le> b \<Longrightarrow> fold max xs a \<le> fold max xs b" for xs :: "nat list"
  proof (induction xs)
    case Nil then show ?case by simp
  next
    case (Cons y ys) then show ?case by (simp add: max.mono)
  qed
  have base: "\<And>a. (a::nat) \<le> fold max xs a" for xs :: "nat list"
  proof (induction xs)
    case Nil then show ?case by simp
  next
    case (Cons y ys)
    have "a \<le> max y a" by simp
    also have "\<dots> \<le> fold max ys (max y a)" by (rule Cons.IH)
    finally show ?case by simp
  qed
  from Cons show ?case
  proof (cases "i = x")
    case True
    have "x \<le> max x a" by simp
    also have "\<dots> \<le> fold max xs (max x a)" by (rule base)
    finally show ?thesis using True by simp
  next
    case False
    with Cons show ?thesis by simp
  qed
qed


lemma set_preserve [simp]:
  "rowId (setPending now r) = rowId r" "url (setPending now r) = url r"
  "rowId (setFailed m now r) = rowId r" "url (setFailed m now r) = url r"
  "rowId (setCompleted t c s n a ct now r) = rowId r" "url (setCompleted t c s n a ct now r) = url r"
  by (simp_all add: setPending_def setFailed_def setCompleted_def)

lemma updateById_tables:
  "analyzedUrls (snd (updateById d i f)) = map (\<lambda>r. if rowId r = i then f r else r) (analyzedUrls d)"
  "contentTags (snd (updateById d i f)) = contentTags d"
  "urlSeq (snd (updateById d i f)) = urlSeq d"
  "tagSeq (snd (updateById d i f)) = tagSeq d"
  "fst (updateById d i f) = map f (selectById d i)"
  by (simp_all add: updateById_def)

lemma selectByUrl_update:
  assumes "\<And>r. url (f r) = url r"
  shows "selectByUrl (snd (updateById d i f)) u =
           map (\<lambda>r. if rowId r = i then f r else r) (selectByUrl d u)"
  unfolding selectByUrl_def updateById_tables
  by (rule filter_map_preserving) (simp add: assms)

lemma enterPending_existing:
  "enterPending e u (Some ex) w =
     (Inr (ex\<lparr>status := Pending\<rparr>),
      w\<lparr>tick := Suc (tick w),
         db := snd (updateById (db w) (rowId ex) (setPending (clock e (tick w))))\<rparr>)"
  by (simp add: enterPending_def newDate_def split: prod.splits)

lemma insertUrl_fresh:
  assumes "u \<notin> set (map url (analyzedUrls d))"
  shows "\<exists>row. insertUrl d u st em c t = Inr (row, d\<lparr>analyzedUrls := analyzedUrls d @ [row], urlSeq := rowId row\<rparr>)
     \<and> url row = u \<and> status row = st \<and> errorMessage row = em
     \<and> rowId row \<notin> set (map rowId (analyzedUrls d))
     \<and> row = \<lparr>rowId = rowId row, url = u, title = None, content = None, summary = None,
                   wordCount = None, analysisDate = None, status = st, errorMessage = em,
                   contentType = None, language = None, createdAt = c, updatedAt = t\<rparr>"
proof -
  let ?i = "Suc (fold max (map rowId (analyzedUrls d)) (urlSeq d))"
  have "?i \<notin> set (map rowId (analyzedUrls d))"
  proof
    assume "?i \<in> set (map rowId (analyzedUrls d))"
    then have "?i \<le> fold max (map rowId (analyzedUrls d)) (urlSeq d)" by (rule fold_max_ge)
    then show False by simp
  qed
  then show ?thesis using assms by (simp add: insertUrl_def Let_def)
qed



lemma generateSummary_world:
  "snd (generateSummary c e sl w) =
     emit (ModelRun (promptOf c (case sl of Some l \<Rightarrow> l | None \<Rightarrow> ''medium''))) w"
  by (simp add: generateSummary_def Let_def split: sum.splits)


lemma insertTags_ok:
  assumes "rowId r \<in> set (map rowId (analyzedUrls (db w)))"
  shows "\<exists>w' new. insertTags e (Some r) ts w = (None, w')
     \<and> analyzedUrls (db w') = analyzedUrls (db w) \<and> trace w' = trace w
     \<and> contentTags (db w') = contentTags (db w) @ new
     \<and> map (\<lambda>t. (urlId t, tag t, confidence t)) new = map (\<lambda>t. (rowId r, t, Some 0.8)) ts"
  using assms
proof (induction ts arbitrary: w)
  case Nil
  then show ?case by simp
next
  case (Cons t ts)
  let ?w1 = "snd (newDate e w)"
  obtain d where d: "insertTag (db ?w1) (rowId r) t 0.8 (fst (newDate e w)) = Inr d"
    and rows: "analyzedUrls d = analyzedUrls (db w)"
    and tags: "\<exists>row. contentTags d = contentTags (db w) @ [row] \<and> urlId row = rowId r
                 \<and> tag row = t \<and> confidence row = Some 0.8"
    using Cons.prems by (simp add: insertTag_def newDate_def Let_def)
  let ?w2 = "?w1\<lparr>db := d\<rparr>"
  have "rowId r \<in> set (map rowId (analyzedUrls (db ?w2)))" using Cons.prems rows by simp
  from Cons.IH [OF this] obtain w' new where
    step: "insertTags e (Some r) ts ?w2 = (None, w')"
    and r': "analyzedUrls (db w') = analyzedUrls (db ?w2)" "trace w' = trace ?w2"
    and t': "contentTags (db w') = contentTags (db ?w2) @ new"
            "map (\<lambda>t. (urlId t, tag t, confidence t)) new = map (\<lambda>t. (rowId r, t, Some 0.8)) ts"
    by blast
  from tags obtain row where row: "contentTags d = contentTags (db w) @ [row]" "urlId row = rowId r"
      "tag row = t" "confidence row = Some 0.8" by blast
  have "insertTags e (Some r) (t # ts) w = (None, w')"
    using d step by (simp add: split_beta Let_def)
  moreover have "analyzedUrls (db w') = analyzedUrls (db w)" using r' rows by simp
  moreover have "trace w' = trace w" using r' by (simp add: newDate_def)
  moreover have "contentTags (db w') = contentTags (db w) @ (row # new)" using t' row by simp
  moreover have "map (\<lambda>t. (urlId t, tag t, confidence t)) (row # new)
      = map (\<lambda>t. (rowId r, t, Some 0.8)) (t # ts)" using t' row by simp
  ultimately show ?case by blast
qed


lemma firstRow_filter_ex:
  "x \<in> set rows \<Longrightarrow> P x \<Longrightarrow> \<exists>r0. firstRow (filter P rows) = Some r0 \<and> P r0 \<and> r0 \<in> set rows"
  by (induction rows) (auto simp add: firstRow_def)

lemma firstRow_selectById:
  assumes "i \<in> set (map rowId (analyzedUrls d))"
  shows "\<exists>r0. firstRow (selectById d i) = Some r0 \<and> rowId r0 = i \<and> r0 \<in> set (analyzedUrls d)"
proof -
  from assms obtain x where "x \<in> set (analyzedUrls d)" "rowId x = i" by auto
  from firstRow_filter_ex [of x "analyzedUrls d" "\<lambda>r. rowId r = i", OF this]
  show ?thesis by (simp add: selectById_def)
qed

lemma map_rowId_update:
  "(\<And>r. rowId (f r) = rowId r) \<Longrightarrow> map rowId (map (\<lambda>r. if rowId r = i then f r else r) rows) = map rowId rows"
  by (induction rows) simp_all


lemma commitSuccess_ok:
  assumes e1: "rowId rec \<in> set (map rowId (analyzedUrls (db w)))"
    and gs: "gs = fst (generateSummary c e (summary_length opts) w)"
    and f: "f = setCompleted t c (fst gs) n (clock e (tick w)) (classify u) (clock e (Suc (tick w)))"
  shows "\<exists>r0 w' new. firstRow (selectById (db w) (rowId rec)) = Some r0
     \<and> commitSuccess e u opts rec (t, c, n) w = (Inr (Some (f r0)), w')
     \<and> analyzedUrls (db w') = map (\<lambda>r. if rowId r = rowId rec then f r else r) (analyzedUrls (db w))
     \<and> contentTags (db w') = contentTags (db w) @ new
     \<and> map (\<lambda>t. (urlId t, tag t, confidence t)) new =
         (if generate_tags opts = Some True then map (\<lambda>t. (rowId rec, t, Some 0.8)) (snd gs) else [])
     \<and> trace w' = trace w @ [ModelRun (promptOf c (case summary_length opts of Some l \<Rightarrow> l | None \<Rightarrow> ''medium''))]"
proof -
  from firstRow_selectById [OF e1] obtain r0 where
    r0: "firstRow (selectById (db w) (rowId rec)) = Some r0" "rowId r0 = rowId rec" by blast
  define w1 where "w1 = snd (generateSummary c e (summary_length opts) w)"
  have w1: "w1 = emit (ModelRun (promptOf c (case summary_length opts of Some l \<Rightarrow> l | None \<Rightarrow> ''medium''))) w"
    unfolding w1_def by (rule generateSummary_world)
  have g: "generateSummary c e (summary_length opts) w = ((fst gs, snd gs), w1)"
    by (simp add: gs w1_def)
  define w4 where "w4 = w1\<lparr>tick := Suc (Suc (tick w)), db := snd (updateById (db w) (rowId rec) f)\<rparr>"
  have rows4: "analyzedUrls (db w4) = map (\<lambda>r. if rowId r = rowId rec then f r else r) (analyzedUrls (db w))"
    by (simp add: w4_def updateById_tables)
  have tags4: "contentTags (db w4) = contentTags (db w)" by (simp add: w4_def updateById_tables)
  have trace4: "trace w4 = trace w @ [ModelRun (promptOf c (case summary_length opts of Some l \<Rightarrow> l | None \<Rightarrow> ''medium''))]"
    by (simp add: w4_def w1 emit_def)
  have upd: "firstRow (fst (updateById (db w) (rowId rec) f)) = Some (f r0)"
    by (simp add: updateById_tables firstRow_map r0)
  have unfold: "commitSuccess e u opts rec (t, c, n) w =
      (if generate_tags opts = Some True \<and> length (snd gs) > 0 then
         (case insertTags e (Some (f r0)) (snd gs) w4 of
            (Some x, w5) \<Rightarrow> (Inl x, w5)
          | (None, w5) \<Rightarrow> (Inr (Some (f r0)), w5))
       else (Inr (Some (f r0)), w4))"
  proof -
    have tick1: "tick w1 = tick w" "db w1 = db w" by (simp_all add: w1 emit_def)
    have pair: "updateById (db w) (rowId rec) f =
        (fst (updateById (db w) (rowId rec) f), snd (updateById (db w) (rowId rec) f))" by simp
    show ?thesis
      unfolding commitSuccess_def prod.case g Let_def newDate_def
      by (simp add: tick1 f [symmetric] split_beta w4_def upd split: option.splits)
  qed
  show ?thesis
  proof (cases "generate_tags opts = Some True \<and> length (snd gs) > 0")
    case True
    have ids4: "map rowId (analyzedUrls (db w4)) = map rowId (analyzedUrls (db w))"
      unfolding rows4 by (rule map_rowId_update) (simp add: f)
    have "rowId (f r0) = rowId rec" using r0 by (simp add: f)
    then have "rowId (f r0) \<in> set (map rowId (analyzedUrls (db w4)))"
      using e1 unfolding ids4 by simp
    from insertTags_ok [OF this, of e "snd gs"] obtain w' new where
      it: "insertTags e (Some (f r0)) (snd gs) w4 = (None, w')"
        "analyzedUrls (db w') = analyzedUrls (db w4)" "trace w' = trace w4"
        "contentTags (db w') = contentTags (db w4) @ new"
        "map (\<lambda>t. (urlId t, tag t, confidence t)) new = map (\<lambda>t. (rowId (f r0), t, Some 0.8)) (snd gs)"
      by blast
    have "rowId (f r0) = rowId rec" using r0 by (simp add: f)
    with it True unfold r0 rows4 tags4 trace4 show ?thesis by auto
  next
    case False
    then have "(if generate_tags opts = Some True then map (\<lambda>t. (rowId rec, t, Some 0.8)) (snd gs) else [])
       = ([] :: (nat \<times> string \<times> real option) list)" by auto
    with False unfold r0 rows4 tags4 trace4 show ?thesis by auto
  qed
qed

lemma firstRow_None_notin:
  assumes "firstRow (selectByUrl d u) = None"
  shows "u \<notin> set (map url (analyzedUrls d))"
proof
  assume "u \<in> set (map url (analyzedUrls d))"
  then obtain r where "r \<in> set (analyzedUrls d)" "url r = u" by auto
  with firstRow_filter_None [of "\<lambda>r. url r = u" "analyzedUrls d" r] assms
  show False by (simp add: selectByUrl_def)
qed

lemma enterPending_fresh:
  assumes "firstRow (selectByUrl (db w) u) = None"
  shows "\<exists>row. enterPending e u None w =
       (Inr row, w\<lparr>tick := Suc (Suc (tick w)),
                  db := (db w)\<lparr>analyzedUrls := analyzedUrls (db w) @ [row], urlSeq := rowId row\<rparr>\<rparr>)
     \<and> rowId row \<notin> set (map rowId (analyzedUrls (db w)))
     \<and> row = \<lparr>rowId = rowId row, url = u, title = None, content = None, summary = None,
               wordCount = None, analysisDate = None, status = Pending, errorMessage = None,
               contentType = None, language = None, createdAt = clock e (tick w),
               updatedAt = clock e (Suc (tick w))\<rparr>"
proof -
  from insertUrl_fresh [OF firstRow_None_notin [OF assms], of Pending None "clock e (tick w)" "clock e (Suc (tick w))"]
  obtain row where row: "insertUrl (db w) u Pending None (clock e (tick w)) (clock e (Suc (tick w)))
        = Inr (row, (db w)\<lparr>analyzedUrls := analyzedUrls (db w) @ [row], urlSeq := rowId row\<rparr>)"
    "rowId row \<notin> set (map rowId (analyzedUrls (db w)))"
    "row = \<lparr>rowId = rowId row, url = u, title = None, content = None, summary = None,
               wordCount = None, analysisDate = None, status = Pending, errorMessage = None,
               contentType = None, language = None, createdAt = clock e (tick w),
               updatedAt = clock e (Suc (tick w))\<rparr>"
    by blast
  have "enterPending e u None w =
       (Inr row, w\<lparr>tick := Suc (Suc (tick w)),
                  db := (db w)\<lparr>analyzedUrls := analyzedUrls (db w) @ [row], urlSeq := rowId row\<rparr>\<rparr>)"
    by (simp add: enterPending_def newDate_def row(1))
  with row show ?thesis by blast
qed

lemma enterPending_ok:
  "\<exists>urlRecord w1 r1. enterPending e u (firstRow (selectByUrl (db w) u)) w = (Inr urlRecord, w1)
     \<and> trace w1 = trace w \<and> contentTags (db w1) = contentTags (db w)
     \<and> rowId urlRecord \<in> set (map rowId (analyzedUrls (db w1)))
     \<and> firstRow (selectByUrl (db w1) u) = Some r1 \<and> rowId r1 = rowId urlRecord
     \<and> (case firstRow (selectByUrl (db w) u) of
          Some ex \<Rightarrow> rowId urlRecord = rowId ex \<and> r1 = setPending (clock e (tick w)) ex
            \<and> analyzedUrls (db w1) =
                map (\<lambda>r. if rowId r = rowId ex then setPending (clock e (tick w)) r else r)
                  (analyzedUrls (db w))
        | None \<Rightarrow> analyzedUrls (db w1) = analyzedUrls (db w) @ [urlRecord] \<and> r1 = urlRecord
            \<and> rowId urlRecord \<notin> set (map rowId (analyzedUrls (db w)))
            \<and> url urlRecord = u)"
proof (cases "firstRow (selectByUrl (db w) u)")
  case None
  from enterPending_fresh [OF None, of e] obtain row where
    row: "enterPending e u None w =
       (Inr row, w\<lparr>tick := Suc (Suc (tick w)),
                  db := (db w)\<lparr>analyzedUrls := analyzedUrls (db w) @ [row], urlSeq := rowId row\<rparr>\<rparr>)"
     "rowId row \<notin> set (map rowId (analyzedUrls (db w)))"
     "row = \<lparr>rowId = rowId row, url = u, title = None, content = None, summary = None,
               wordCount = None, analysisDate = None, status = Pending, errorMessage = None,
               contentType = None, language = None, createdAt = clock e (tick w),
               updatedAt = clock e (Suc (tick w))\<rparr>"
    by blast
  have u: "url row = u" by (subst row(3)) simp
  have "filter (\<lambda>r. url r = u) (analyzedUrls (db w)) = []"
    using firstRow_None_notin [OF None] by (auto simp add: filter_empty_conv)
  then have sel: "firstRow (selectByUrl
      ((db w)\<lparr>analyzedUrls := analyzedUrls (db w) @ [row], urlSeq := rowId row\<rparr>) u) = Some row"
    by (simp add: selectByUrl_def firstRow_def u)
  let ?w1 = "w\<lparr>tick := Suc (Suc (tick w)),
                  db := (db w)\<lparr>analyzedUrls := analyzedUrls (db w) @ [row], urlSeq := rowId row\<rparr>\<rparr>"
  have B: "trace ?w1 = trace w" "contentTags (db ?w1) = contentTags (db w)"
    "analyzedUrls (db ?w1) = analyzedUrls (db w) @ [row]"
    "rowId row \<in> set (map rowId (analyzedUrls (db ?w1)))"
    "firstRow (selectByUrl (db ?w1) u) = Some row"
    using sel by simp_all
  show ?thesis
    unfolding None option.case
    apply (rule exI [of _ row])
    apply (rule exI [of _ ?w1])
    apply (rule exI [of _ row])
    apply (intro conjI row(1) row(2) B u refl)
    done
next
  case (Some ex)
  let ?g = "\<lambda>r. if rowId r = rowId ex then setPending (clock e (tick w)) r else r"
  let ?w1 = "w\<lparr>tick := Suc (tick w),
         db := snd (updateById (db w) (rowId ex) (setPending (clock e (tick w))))\<rparr>"
  from Some have ex: "ex \<in> set (analyzedUrls (db w))" "url ex = u"
    using firstRow_filter_Some [of "\<lambda>r. url r = u" "analyzedUrls (db w)" ex]
    by (simp_all add: selectByUrl_def)
  have rows: "analyzedUrls (db ?w1) = map ?g (analyzedUrls (db w))"
    by (simp add: updateById_tables)
  have ids: "map rowId (analyzedUrls (db ?w1)) = map rowId (analyzedUrls (db w))"
    unfolding rows by (rule map_rowId_update) simp
  have sel: "firstRow (selectByUrl (db ?w1) u) = Some (setPending (clock e (tick w)) ex)"
    by (simp add: selectByUrl_update firstRow_map Some)
  have e1: "rowId (ex\<lparr>status := Pending\<rparr>) \<in> set (map rowId (analyzedUrls (db ?w1)))"
    unfolding ids using ex by simp
  have A: "enterPending e u (Some ex) w = (Inr (ex\<lparr>status := Pending\<rparr>), ?w1)"
    by (rule enterPending_existing)
  have B: "trace ?w1 = trace w" "contentTags (db ?w1) = contentTags (db w)"
    by (simp_all add: updateById_tables)
  have C: "rowId (setPending (clock e (tick w)) ex) = rowId (ex\<lparr>status := Pending\<rparr>)"
    "rowId (ex\<lparr>status := Pending\<rparr>) = rowId ex" by simp_all
  show ?thesis
    unfolding Some option.case
    apply (rule exI [of _ "ex\<lparr>status := Pending\<rparr>"])
    apply (rule exI [of _ ?w1])
    apply (rule exI [of _ "setPending (clock e (tick w)) ex"])
    apply (intro conjI A B C e1 sel rows refl)
    done
qed

lemma commitFailure_Some:
  "commitFailure e u (Some rec) x w =
     (Inl x, w\<lparr>tick := Suc (tick w),
               db := snd (updateById (db w) (rowId rec)
                            (setFailed (errorMessageOf x) (clock e (tick w))))\<rparr>)"
  by (simp add: commitFailure_def newDate_def Let_def split: prod.splits)

lemma analyzeBody_insufficient:
  assumes "fetch e u = Response code st (Inr html)" "200 \<le> code" "code \<le> 299"
    and "extractContent html = (t, c, n)" "length c < 50"
  shows "analyzeBody e u opts rec w =
           (Inl (Error ''Insufficient content extracted from URL''), emit (Fetched u) w)"
  using assms by (simp add: analyzeBody_def Let_def)

lemma analyzeBody_sufficient:
  assumes "fetch e u = Response code st (Inr html)" "200 \<le> code" "code \<le> 299"
    and "extractContent html = (t, c, n)" "50 \<le> length c"
  shows "analyzeBody e u opts rec w = commitSuccess e u opts rec (t, c, n) (emit (Fetched u) w)"
  using assms by (auto simp add: analyzeBody_def Let_def)

lemma analyzeBody_Inl:
  assumes e1: "rowId rec \<in> set (map rowId (analyzedUrls (db w)))"
    and fail: "analyzeBody e u opts rec w = (Inl x, w2)"
  shows "w2 = emit (Fetched u) w"
proof (cases "fetch e u")
  case (FetchThrows y)
  with fail show ?thesis by (simp add: analyzeBody_def Let_def)
next
  case (Response code st body')
  show ?thesis
  proof (cases "200 \<le> code \<and> code \<le> 299")
    case False
    with fail Response show ?thesis by (auto simp add: analyzeBody_def Let_def)
  next
    case True
    show ?thesis
    proof (cases body')
      case (Inl y)
      with fail Response True show ?thesis by (simp add: analyzeBody_def Let_def)
    next
      case (Inr html)
      obtain t c n where ex: "extractContent html = (t, c, n)" by (rule prod_cases3)
      show ?thesis
      proof (cases "length c < 50")
        case short: True
        from analyzeBody_insufficient [OF Response [unfolded Inr] _ _ ex short] True fail
        show ?thesis by simp
      next
        case False
        then have long: "50 \<le> length c" by simp
        have e1': "rowId rec \<in> set (map rowId (analyzedUrls (db (emit (Fetched u) w))))"
          using e1 by (simp add: emit_def)
        from commitSuccess_ok [OF e1' refl refl]
        obtain r w' where "commitSuccess e u opts rec (t, c, n) (emit (Fetched u) w) = (Inr r, w')"
          by blast
        with analyzeBody_sufficient [OF Response [unfolded Inr] _ _ ex long] True fail
        show ?thesis by simp
      qed
    qed
  qed
qed

lemma goodHtml_extract:
  "extractContent goodHtml =
     (''T'', ''Hello world this is a sufficiently long test paragraph for extraction'', 11)"
  unfolding goodHtml_def by code_simp

lemma db_emit [simp]: "db (emit ev w) = db w" "tick (emit ev w) = tick w"
  "trace (emit ev w) = trace w @ [ev]"
  by (simp_all add: emit_def)

lemma analyzeUrl_step_failure:
  assumes nc: "\<not> isCompleted (firstRow (selectByUrl (db w) u))"
    and enter: "enterPending e u (firstRow (selectByUrl (db w) u)) w = (Inr urlRecord, w1)"
    and e1: "rowId urlRecord \<in> set (map rowId (analyzedUrls (db w1)))"
    and fail: "fst (analyzeUrl e u opts w) = Inl x"
  shows "analyzeBody e u opts urlRecord w1 = (Inl x, emit (Fetched u) w1)
     \<and> snd (analyzeUrl e u opts w) =
         (emit (Fetched u) w1)\<lparr>tick := Suc (tick w1),
            db := snd (updateById (db w1) (rowId urlRecord)
                         (setFailed (errorMessageOf x) (clock e (tick w1))))\<rparr>"
proof -
  obtain r w2 where body: "analyzeBody e u opts urlRecord w1 = (r, w2)" by (cases "analyzeBody e u opts urlRecord w1")
  show ?thesis
  proof (cases r)
    case (Inr v)
    with fail body show ?thesis
      by (simp add: analyzeUrl_not_completed [OF nc] enter)
  next
    case (Inl y)
    from analyzeBody_Inl [OF e1 body [unfolded Inl]] have w2: "w2 = emit (Fetched u) w1" .
    have "analyzeUrl e u opts w = commitFailure e u (Some urlRecord) y w2"
      by (simp add: analyzeUrl_not_completed [OF nc] enter body Inl)
    then have res: "analyzeUrl e u opts w =
       (Inl y, w2\<lparr>tick := Suc (tick w2),
               db := snd (updateById (db w2) (rowId urlRecord)
                            (setFailed (errorMessageOf y) (clock e (tick w2))))\<rparr>)"
      by (simp add: commitFailure_Some)
    with fail have "y = x" by simp
    with res body Inl w2 show ?thesis by simp
  qed
qed

lemma analyzeUrl_insufficient:
  assumes nc: "\<not> isCompleted (firstRow (selectByUrl (db w) u))"
    and page: "fetch e u = Response code st (Inr html)" "200 \<le> code" "code \<le> 299"
    and short: "extractContent html = (t, c, n)" "length c < 50"
  shows "fst (analyzeUrl e u opts w) = Inl (Error ''Insufficient content extracted from URL'')
     \<and> (\<exists>r. firstRow (selectByUrl (db (snd (analyzeUrl e u opts w))) u) = Some r
           \<and> status r = Failed
           \<and> errorMessage r = Some ''Insufficient content extracted from URL'')"
proof -
  from enterPending_ok [of e u w] obtain urlRecord w1 r1 where
    enter: "enterPending e u (firstRow (selectByUrl (db w) u)) w = (Inr urlRecord, w1)"
    and e1: "rowId urlRecord \<in> set (map rowId (analyzedUrls (db w1)))"
    and r1: "firstRow (selectByUrl (db w1) u) = Some r1" "rowId r1 = rowId urlRecord"
    by blast
  let ?x = "Error ''Insufficient content extracted from URL''"
  have body: "analyzeBody e u opts urlRecord w1 = (Inl ?x, emit (Fetched u) w1)"
    by (rule analyzeBody_insufficient [OF page short])
  have res: "analyzeUrl e u opts w = commitFailure e u (Some urlRecord) ?x (emit (Fetched u) w1)"
    by (simp add: analyzeUrl_not_completed [OF nc] enter body)
  have fst: "fst (analyzeUrl e u opts w) = Inl ?x"
    by (simp add: res commitFailure_Some)
  have db: "db (snd (analyzeUrl e u opts w)) =
      snd (updateById (db w1) (rowId urlRecord) (setFailed (errorMessageOf ?x) (clock e (tick w1))))"
    by (simp add: res commitFailure_Some)
  have sel: "firstRow (selectByUrl (db (snd (analyzeUrl e u opts w))) u) =
      Some (setFailed (errorMessageOf ?x) (clock e (tick w1)) r1)"
    unfolding db by (simp add: selectByUrl_update firstRow_map r1)
  have "status (setFailed (errorMessageOf ?x) (clock e (tick w1)) r1) = Failed"
    "errorMessage (setFailed (errorMessageOf ?x) (clock e (tick w1)) r1)
       = Some ''Insufficient content extracted from URL''"
    by (simp_all add: setFailed_def errorMessageOf_def)
  with fst sel show ?thesis by blast
qed

lemma map_update_other:
  "i \<notin> set (map rowId rows) \<Longrightarrow> map (\<lambda>r. if rowId r = i then f r else r) rows = rows"
  by (induction rows) auto

lemma generateSummary_fst:
  "fst (generateSummary c e sl w) = fst (generateSummary c e sl w')"
  by (simp add: generateSummary_def Let_def split: sum.splits)

lemma analyzeUrl_success:
  assumes nc: "\<not> isCompleted (firstRow (selectByUrl (db w) u))"
    and page: "fetch e u = Response code st (Inr html)" "200 \<le> code" "code \<le> 299"
    and long: "extractContent html = (t, c, n)" "50 \<le> length c"
    and gs: "gs = fst (generateSummary c e (summary_length opts) w)"
  shows "\<exists>urlRecord w1 r1 r0 new a b.
       enterPending e u (firstRow (selectByUrl (db w) u)) w = (Inr urlRecord, w1)
     \<and> firstRow (selectByUrl (db w1) u) = Some r1 \<and> rowId r1 = rowId urlRecord
     \<and> firstRow (selectById (db w1) (rowId urlRecord)) = Some r0
     \<and> r0 \<in> set (analyzedUrls (db w1)) \<and> r1 \<in> set (analyzedUrls (db w1))
     \<and> map rowId (analyzedUrls (db w1)) =
         (case firstRow (selectByUrl (db w) u) of
            Some ex \<Rightarrow> map rowId (analyzedUrls (db w))
          | None \<Rightarrow> map rowId (analyzedUrls (db w)) @ [rowId urlRecord])
     \<and> (firstRow (selectByUrl (db w) u) = None \<longrightarrow> rowId urlRecord \<notin> set (map rowId (analyzedUrls (db w))))
     \<and> fst (analyzeUrl e u opts w) = Inr (Some (setCompleted t c (fst gs) n a (classify u) b r0))
     \<and> analyzedUrls (db (snd (analyzeUrl e u opts w))) =
         map (\<lambda>r. if rowId r = rowId urlRecord then setCompleted t c (fst gs) n a (classify u) b r else r)
           (analyzedUrls (db w1))
     \<and> contentTags (db (snd (analyzeUrl e u opts w))) = contentTags (db w) @ new
     \<and> map (\<lambda>t. (urlId t, tag t, confidence t)) new =
         (if generate_tags opts = Some True then map (\<lambda>t. (rowId urlRecord, t, Some 0.8)) (snd gs) else [])
     \<and> trace (snd (analyzeUrl e u opts w)) = trace w @
         [Fetched u, ModelRun (promptOf c (case summary_length opts of Some l \<Rightarrow> l | None \<Rightarrow> ''medium''))]"
proof -
  from enterPending_ok [of e u w] obtain urlRecord w1 r1 where
    enter: "enterPending e u (firstRow (selectByUrl (db w) u)) w = (Inr urlRecord, w1)"
    and tr1: "trace w1 = trace w"
    and tags1: "contentTags (db w1) = contentTags (db w)"
    and e1: "rowId urlRecord \<in> set (map rowId (analyzedUrls (db w1)))"
    and r1: "firstRow (selectByUrl (db w1) u) = Some r1" "rowId r1 = rowId urlRecord"
    and rel: "(case firstRow (selectByUrl (db w) u) of
          Some ex \<Rightarrow> rowId urlRecord = rowId ex \<and> r1 = setPending (clock e (tick w)) ex
            \<and> analyzedUrls (db w1) =
                map (\<lambda>r. if rowId r = rowId ex then setPending (clock e (tick w)) r else r)
                  (analyzedUrls (db w))
        | None \<Rightarrow> analyzedUrls (db w1) = analyzedUrls (db w) @ [urlRecord] \<and> r1 = urlRecord
            \<and> rowId urlRecord \<notin> set (map rowId (analyzedUrls (db w)))
            \<and> url urlRecord = u)"
    by blast
  let ?w2 = "emit (Fetched u) w1"
  have e1': "rowId urlRecord \<in> set (map rowId (analyzedUrls (db ?w2)))" using e1 by simp
  have gs': "gs = fst (generateSummary c e (summary_length opts) ?w2)"
    unfolding gs by (rule generateSummary_fst)
  from commitSuccess_ok [OF e1' gs' refl, where t = t and n = n and u = u]
  obtain r0 w' new where
    r0: "firstRow (selectById (db ?w2) (rowId urlRecord)) = Some r0"
    and cs: "commitSuccess e u opts urlRecord (t, c, n) ?w2 =
       (Inr (Some (setCompleted t c (fst gs) n (clock e (tick ?w2)) (classify u)
                     (clock e (Suc (tick ?w2))) r0)), w')"
    and rows: "analyzedUrls (db w') =
       map (\<lambda>r. if rowId r = rowId urlRecord
                then setCompleted t c (fst gs) n (clock e (tick ?w2)) (classify u)
                       (clock e (Suc (tick ?w2))) r
                else r) (analyzedUrls (db ?w2))"
    and tags: "contentTags (db w') = contentTags (db ?w2) @ new"
      "map (\<lambda>t. (urlId t, tag t, confidence t)) new =
         (if generate_tags opts = Some True then map (\<lambda>t. (rowId urlRecord, t, Some 0.8)) (snd gs) else [])"
    and tr: "trace w' = trace ?w2 @
       [ModelRun (promptOf c (case summary_length opts of Some l \<Rightarrow> l | None \<Rightarrow> ''medium''))]"
    by blast
  have res: "analyzeUrl e u opts w =
       (Inr (Some (setCompleted t c (fst gs) n (clock e (tick ?w2)) (classify u)
                     (clock e (Suc (tick ?w2))) r0)), w')"
    by (simp add: analyzeUrl_not_completed [OF nc] enter analyzeBody_sufficient [OF page long] cs)
  have r0in: "r0 \<in> set (analyzedUrls (db w1))"
    using firstRow_filter_Some [of "\<lambda>r. rowId r = rowId urlRecord" "analyzedUrls (db w1)" r0] r0
    by (simp add: selectById_def)
  have r1in: "r1 \<in> set (analyzedUrls (db w1))"
    using firstRow_filter_Some [of "\<lambda>r. url r = u" "analyzedUrls (db w1)" r1] r1
    by (simp add: selectByUrl_def)
  have ids: "map rowId (analyzedUrls (db w1)) =
         (case firstRow (selectByUrl (db w) u) of
            Some ex \<Rightarrow> map rowId (analyzedUrls (db w))
          | None \<Rightarrow> map rowId (analyzedUrls (db w)) @ [rowId urlRecord])"
  proof (cases "firstRow (selectByUrl (db w) u)")
    case None
    with rel show ?thesis by simp
  next
    case (Some ex)
    with rel have "analyzedUrls (db w1) =
        map (\<lambda>r. if rowId r = rowId ex then setPending (clock e (tick w)) r else r)
          (analyzedUrls (db w))" by simp
    then show ?thesis unfolding Some option.case by (simp add: map_rowId_update)
  qed
  have fresh: "firstRow (selectByUrl (db w) u) = None \<longrightarrow>
      rowId urlRecord \<notin> set (map rowId (analyzedUrls (db w)))"
    using rel by (simp split: option.splits)
  show ?thesis
    apply (rule exI [of _ urlRecord], rule exI [of _ w1], rule exI [of _ r1], rule exI [of _ r0])
    apply (rule exI [of _ new])
    apply (rule exI [of _ "clock e (tick ?w2)"], rule exI [of _ "clock e (Suc (tick ?w2))"])
    using enter r1 r0 r0in r1in ids fresh res rows tags tr tr1 tags1 by simp
qed

subsection \<open>The concrete inputs\<close>

lemma shortHtml_extract: "extractContent ''<p>Hi</p>'' = ([], ''Hi'', 1)"
  by code_simp

lemma emptyWorld_not_completed:
  "\<not> isCompleted (firstRow (selectByUrl (db emptyWorld) u))"
  by (simp add: emptyWorld_def emptyStore_def selectByUrl_def firstRow_def isCompleted_def)

lemma failedWorld_row:
  "firstRow (selectByUrl (db failedWorld) ''https://good.example'') = Some failedRow"
  by (simp add: failedWorld_def failedRow_def selectByUrl_def firstRow_def)


lemma goodEnv_page: "fetch goodEnv u = Response 200 ''OK'' (Inr goodHtml)"
  by (simp add: goodEnv_def)


subsection \<open>A run that returns a record\<close>

lemma tags_at_most_five: "length (snd (fst (generateSummary c e sl w))) \<le> 5"
  by (simp add: generateSummary_def summaryAttempt_def fallbackSummary_def parseReply_def Let_def
      split: sum.splits aiResult.splits)

lemma analyzeBody_Inr:
  assumes "analyzeBody e u opts rec w = (Inr v, w2)"
  shows "\<exists>code st html t c n. fetch e u = Response code st (Inr html) \<and> 200 \<le> code \<and> code \<le> 299
     \<and> extractContent html = (t, c, n) \<and> 50 \<le> length c"
proof (cases "fetch e u")
  case (FetchThrows y)
  with assms show ?thesis by (simp add: analyzeBody_def Let_def)
next
  case (Response code st body')
  show ?thesis
  proof (cases "200 \<le> code \<and> code \<le> 299")
    case False
    with assms Response show ?thesis by (auto simp add: analyzeBody_def Let_def)
  next
    case True
    show ?thesis
    proof (cases body')
      case (Inl y)
      with assms Response True show ?thesis by (simp add: analyzeBody_def Let_def)
    next
      case (Inr html)
      obtain t c n where ex: "extractContent html = (t, c, n)" by (rule prod_cases3)
      show ?thesis
      proof (cases "length c < 50")
        case short: True
        from analyzeBody_insufficient [OF Response [unfolded Inr] _ _ ex short] True assms
        show ?thesis by simp
      next
        case False
        with Response Inr True ex show ?thesis by auto
      qed
    qed
  qed
qed

lemma analyzeUrl_Inr_page:
  assumes nc: "\<not> isCompleted (firstRow (selectByUrl (db w) u))"
    and ok: "fst (analyzeUrl e u opts w) = Inr v"
  shows "\<exists>code st html t c n. fetch e u = Response code st (Inr html) \<and> 200 \<le> code \<and> code \<le> 299
     \<and> extractContent html = (t, c, n) \<and> 50 \<le> length c"
proof -
  from enterPending_ok [of e u w] obtain urlRecord w1 where
    enter: "enterPending e u (firstRow (selectByUrl (db w) u)) w = (Inr urlRecord, w1)"
    by blast
  obtain r w2 where body: "analyzeBody e u opts urlRecord w1 = (r, w2)"
    by (cases "analyzeBody e u opts urlRecord w1")
  show ?thesis
  proof (cases r)
    case (Inl x)
    with ok show ?thesis
      by (simp add: analyzeUrl_not_completed [OF nc] enter body commitFailure_Some)
  next
    case (Inr v')
    from analyzeBody_Inr [OF body [unfolded Inr]] show ?thesis .
  qed
qed

lemma distinct_rowId_unique:
  assumes "distinct (map rowId rows)" "a \<in> set rows" "b \<in> set rows" "rowId a = rowId b"
  shows "a = b"
  using assms by (meson distinct_map inj_onD)

lemma selectByUrl_map:
  assumes "\<And>r. url (g r) = url r" and "analyzedUrls d' = map g (analyzedUrls d)"
  shows "firstRow (selectByUrl d' u) = map_option g (firstRow (selectByUrl d u))"
proof -
  have "filter (\<lambda>r. url r = u) (map g (analyzedUrls d)) = map g (filter (\<lambda>r. url r = u) (analyzedUrls d))"
    by (rule filter_map_preserving) (simp add: assms(1))
  then show ?thesis unfolding selectByUrl_def assms(2) by (simp add: firstRow_map)
qed

lemma analyzeUrl_success_stored:
  assumes nc: "\<not> isCompleted (firstRow (selectByUrl (db w) u))"
    and page: "fetch e u = Response code st (Inr html)" "200 \<le> code" "code \<le> 299"
    and long: "extractContent html = (t, c, n)" "50 \<le> length c"
  shows "\<exists>r r' new. fst (analyzeUrl e u opts w) = Inr (Some r)
     \<and> status r = Completed
     \<and> summary r = Some (fst (fst (generateSummary c e (summary_length opts) w)))
     \<and> firstRow (selectByUrl (db (snd (analyzeUrl e u opts w))) u) = Some r'
     \<and> status r' = Completed \<and> rowId r' = rowId r
     \<and> (distinct (map rowId (analyzedUrls (db w))) \<longrightarrow> r' = r)
     \<and> contentTags (db (snd (analyzeUrl e u opts w))) = contentTags (db w) @ new
     \<and> map (\<lambda>t. (urlId t, tag t, confidence t)) new =
         (if generate_tags opts = Some True
          then map (\<lambda>t. (rowId r, t, Some 0.8)) (snd (fst (generateSummary c e (summary_length opts) w)))
          else [])"
proof -
  define gs where "gs = fst (generateSummary c e (summary_length opts) w)"
  from analyzeUrl_success [OF nc page long gs_def]
  obtain urlRecord :: analyzedUrl and w1 :: world and r1 r0 new a b where
    r1: "firstRow (selectByUrl (db w1) u) = Some r1" "rowId r1 = rowId urlRecord"
    and r0: "firstRow (selectById (db w1) (rowId urlRecord)) = Some r0"
    and mem: "r0 \<in> set (analyzedUrls (db w1))" "r1 \<in> set (analyzedUrls (db w1))"
    and ids: "map rowId (analyzedUrls (db w1)) =
         (case firstRow (selectByUrl (db w) u) of
            Some ex \<Rightarrow> map rowId (analyzedUrls (db w))
          | None \<Rightarrow> map rowId (analyzedUrls (db w)) @ [rowId urlRecord])"
    and fresh: "firstRow (selectByUrl (db w) u) = None \<longrightarrow>
         rowId urlRecord \<notin> set (map rowId (analyzedUrls (db w)))"
    and res: "fst (analyzeUrl e u opts w) = Inr (Some (setCompleted t c (fst gs) n a (classify u) b r0))"
    and rows: "analyzedUrls (db (snd (analyzeUrl e u opts w))) =
         map (\<lambda>r. if rowId r = rowId urlRecord then setCompleted t c (fst gs) n a (classify u) b r else r)
           (analyzedUrls (db w1))"
    and tags: "contentTags (db (snd (analyzeUrl e u opts w))) = contentTags (db w) @ new"
      "map (\<lambda>t. (urlId t, tag t, confidence t)) new =
         (if generate_tags opts = Some True then map (\<lambda>t. (rowId urlRecord, t, Some 0.8)) (snd gs) else [])"
    by (elim exE conjE) (rule that, assumption+)
  let ?f = "setCompleted t c (fst gs) n a (classify u) b"
  have id0: "rowId r0 = rowId urlRecord"
    using firstRow_filter_Some [of "\<lambda>r. rowId r = rowId urlRecord" "analyzedUrls (db w1)" r0] r0
    by (simp add: selectById_def)
  have sel: "firstRow (selectByUrl (db (snd (analyzeUrl e u opts w))) u) = Some (?f r1)"
    using selectByUrl_map [of "\<lambda>r. if rowId r = rowId urlRecord then ?f r else r", OF _ rows, of u] r1
    by simp
  have dist: "distinct (map rowId (analyzedUrls (db w))) \<Longrightarrow> r1 = r0"
  proof -
    assume d: "distinct (map rowId (analyzedUrls (db w)))"
    have "distinct (map rowId (analyzedUrls (db w1)))"
      unfolding ids using d fresh by (cases "firstRow (selectByUrl (db w) u)") simp_all
    from distinct_rowId_unique [OF this mem(2) mem(1)] r1(2) id0 show "r1 = r0" by simp
  qed
  have st: "status (?f r0) = Completed" "summary (?f r0) = Some (fst gs)" "rowId (?f r0) = rowId urlRecord"
    "status (?f r1) = Completed" "rowId (?f r1) = rowId (?f r0)"
    using id0 r1(2) by (simp_all add: setCompleted_def)
  show ?thesis
    apply (rule exI [of _ "?f r0"], rule exI [of _ "?f r1"], rule exI [of _ new])
    using res st sel dist tags unfolding gs_def by simp
qed


lemma goodHtml_long:
  "50 \<le> length ''Hello world this is a sufficiently long test paragraph for extraction''"
  by simp

lemma goodReply_tags:
  "snd (parseReply ''SUMMARY: A page. TAGS: a, b, c, d, e, f, g, h'') = [''a'', ''b'', ''c'', ''d'', ''e'']"
  by code_simp

lemma emptyWorld_distinct: "distinct (map rowId (analyzedUrls (db emptyWorld)))"
  by (simp add: emptyWorld_def emptyStore_def)

subsection \<open>Reachable stores and posted emails\<close>


lemma quiet_refl: "quiet w w"
  by (simp add: quiet_def)

lemma quiet_trans: "quiet w w1 \<Longrightarrow> quiet w1 w2 \<Longrightarrow> quiet w w2"
  by (simp add: quiet_def)

lemma quiet_newDate: "quiet w (snd (newDate e w))"
  by (simp add: quiet_def newDate_def emailsOf_def)

lemma quiet_tick: "quiet w (w\<lparr>tick := k\<rparr>)"
  by (simp add: quiet_def emailsOf_def)

lemma quiet_emit: "\<not> isEmailPosted ev \<Longrightarrow> quiet w (emit ev w)"
  by (simp add: quiet_def emailsOf_def)

lemma quiet_update:
  assumes "\<And>r. rowId (f r) = rowId r \<and> url (f r) = url r"
  shows "quiet w (w\<lparr>db := snd (updateById (db w) i f)\<rparr>)"
  using reachable.updated [of "db w" f i] assms by (simp add: quiet_def emailsOf_def)

lemma quiet_insert:
  "insertUrl (db w) u st em c t = Inr (row, d) \<Longrightarrow> quiet w (w\<lparr>db := d\<rparr>)"
  using reachable.inserted [of "db w" u st em c t row d] by (simp add: quiet_def emailsOf_def)

lemma quiet_tag:
  "insertTag (db w) i t c created = Inr d \<Longrightarrow> quiet w (w\<lparr>db := d\<rparr>)"
  using reachable.tagged [of "db w" i t c created d] by (simp add: quiet_def emailsOf_def)

lemma quiet_enterPending: "quiet w (snd (enterPending e u existing w))"
proof (cases existing)
  case None
  let ?w2 = "w\<lparr>tick := Suc (Suc (tick w))\<rparr>"
  have q: "quiet w ?w2" by (rule quiet_tick)
  show ?thesis
  proof (cases "insertUrl (db w) u Pending None (clock e (tick w)) (clock e (Suc (tick w)))")
    case (Inl x)
    with None q show ?thesis by (simp add: enterPending_def newDate_def)
  next
    case (Inr p)
    obtain row d where p: "p = (row, d)" by (cases p)
    have "insertUrl (db ?w2) u Pending None (clock e (tick w)) (clock e (Suc (tick w))) = Inr (row, d)"
      using Inr p by simp
    from quiet_trans [OF q quiet_insert [OF this]] None Inr p show ?thesis
      by (simp add: enterPending_def newDate_def)
  qed
next
  case (Some ex)
  have "quiet w (w\<lparr>tick := Suc (tick w)\<rparr>)" by (rule quiet_tick)
  moreover have "quiet (w\<lparr>tick := Suc (tick w)\<rparr>)
     (w\<lparr>tick := Suc (tick w)\<rparr>\<lparr>db := snd (updateById (db (w\<lparr>tick := Suc (tick w)\<rparr>)) (rowId ex)
         (setPending (clock e (tick w))))\<rparr>)"
    by (rule quiet_update) simp
  ultimately show ?thesis unfolding Some enterPending_existing
    using quiet_trans by fastforce
qed

lemma quiet_insertTags: "quiet w (snd (insertTags e r ts w))"
proof (induction ts arbitrary: w)
  case Nil
  show ?case by (simp add: quiet_refl)
next
  case (Cons t ts)
  show ?case
  proof (cases r)
    case None
    then show ?thesis by (simp add: quiet_refl)
  next
    case (Some row)
    let ?w1 = "w\<lparr>tick := Suc (tick w)\<rparr>"
    have q1: "quiet w ?w1" by (rule quiet_tick)
    show ?thesis
    proof (cases "insertTag (db w) (rowId row) t 0.8 (clock e (tick w))")
      case (Inl x)
      with Some q1 show ?thesis by (simp add: newDate_def)
    next
      case (Inr d)
      then have "insertTag (db ?w1) (rowId row) t 0.8 (clock e (tick w)) = Inr d" by simp
      from quiet_trans [OF q1 quiet_tag [OF this]] have "quiet w (?w1\<lparr>db := d\<rparr>)" .
      from quiet_trans [OF this Cons.IH [of "?w1\<lparr>db := d\<rparr>"]] Some Inr show ?thesis
        by (simp add: newDate_def)
    qed
  qed
qed


lemma quiet_generateSummary: "quiet w (snd (generateSummary c e sl w))"
  unfolding generateSummary_world by (rule quiet_emit) (simp add: isEmailPosted_def)

lemma quiet_commitSuccess: "quiet w (snd (commitSuccess e u opts rec ex w))"
proof -
  obtain t c n where ex: "ex = (t, c, n)" by (cases ex)
  obtain gs w1 where g: "generateSummary c e (summary_length opts) w = (gs, w1)"
    by (cases "generateSummary c e (summary_length opts) w")
  obtain s' tags where gs: "gs = (s', tags)" by (cases gs)
  have q1: "quiet w w1" using quiet_generateSummary [of w c e "summary_length opts"] g by simp
  let ?w3 = "w1\<lparr>tick := Suc (tick w1), tick := Suc (Suc (tick w1))\<rparr>"
  let ?f = "setCompleted t c s' n (clock e (tick w1)) (classify u) (clock e (Suc (tick w1)))"
  let ?w4 = "?w3\<lparr>db := snd (updateById (db ?w3) (rowId rec) ?f)\<rparr>"
  have q3: "quiet w1 ?w3" using quiet_tick [of w1 "Suc (Suc (tick w1))"] by simp
  have q4: "quiet ?w3 ?w4" by (rule quiet_update) simp
  have q: "quiet w ?w4" using quiet_trans [OF q1 quiet_trans [OF q3 q4]] .
  have cs: "snd (commitSuccess e u opts rec ex w) =
      (if generate_tags opts = Some True \<and> length tags > 0
       then snd (insertTags e (firstRow (fst (updateById (db ?w3) (rowId rec) ?f))) tags ?w4)
       else ?w4)"
    by (simp add: commitSuccess_def ex g gs newDate_def split_beta Let_def split: option.splits)
  show ?thesis unfolding cs
    using q quiet_trans [OF q quiet_insertTags] by simp
qed

lemma quiet_analyzeBody: "quiet w (snd (analyzeBody e u opts rec w))"
proof -
  have q1: "quiet w (emit (Fetched u) w)" by (rule quiet_emit) (simp add: isEmailPosted_def)
  have q2: "quiet w (snd (commitSuccess e u opts rec ex (emit (Fetched u) w)))" for ex
    by (rule quiet_trans [OF q1 quiet_commitSuccess])
  show ?thesis
    using q1 q2
    by (simp add: analyzeBody_def Let_def split: fetchResult.splits sum.splits prod.splits)
qed

lemma quiet_commitFailure: "quiet w (snd (commitFailure e u urlRecord x w))"
proof (cases urlRecord)
  case (Some rec)
  have "quiet w (w\<lparr>tick := Suc (tick w)\<rparr>)" by (rule quiet_tick)
  moreover have "quiet (w\<lparr>tick := Suc (tick w)\<rparr>)
     (w\<lparr>tick := Suc (tick w)\<rparr>\<lparr>db := snd (updateById (db (w\<lparr>tick := Suc (tick w)\<rparr>)) (rowId rec)
         (setFailed (errorMessageOf x) (clock e (tick w))))\<rparr>)"
    by (rule quiet_update) simp
  ultimately show ?thesis unfolding Some commitFailure_Some
    using quiet_trans by fastforce
next
  case None
  let ?w2 = "w\<lparr>tick := Suc (Suc (tick w))\<rparr>"
  have q: "quiet w ?w2" by (rule quiet_tick)
  show ?thesis
  proof (cases "insertUrl (db w) u Failed (Some (errorMessageOf x)) (clock e (tick w)) (clock e (Suc (tick w)))")
    case (Inl y)
    with None q show ?thesis by (simp add: commitFailure_def newDate_def)
  next
    case (Inr p)
    obtain row d where p: "p = (row, d)" by (cases p)
    have "insertUrl (db ?w2) u Failed (Some (errorMessageOf x)) (clock e (tick w)) (clock e (Suc (tick w))) = Inr (row, d)"
      using Inr p by simp
    from quiet_trans [OF q quiet_insert [OF this]] None Inr p show ?thesis
      by (simp add: commitFailure_def newDate_def)
  qed
qed

lemma quiet_analyzeUrl: "quiet w (snd (analyzeUrl e u opts w))"
proof (cases "isCompleted (firstRow (selectByUrl (db w) u))")
  case True
  then show ?thesis by (simp add: analyzeUrl_def quiet_refl)
next
  case False
  let ?ex = "firstRow (selectByUrl (db w) u)"
  obtain r1 w1 where en: "enterPending e u ?ex w = (r1, w1)" by (cases "enterPending e u ?ex w")
  have q1: "quiet w w1" using quiet_enterPending [of w e u ?ex] en by simp
  show ?thesis
  proof (cases r1)
    case (Inl x)
    from quiet_trans [OF q1 quiet_commitFailure] show ?thesis
      by (simp add: analyzeUrl_not_completed [OF False] en Inl)
  next
    case (Inr urlRecord)
    obtain r2 w2 where b: "analyzeBody e u opts urlRecord w1 = (r2, w2)"
      by (cases "analyzeBody e u opts urlRecord w1")
    have q2: "quiet w w2"
      using quiet_trans [OF q1 quiet_analyzeBody [of w1 e u opts urlRecord]] b by simp
    show ?thesis
    proof (cases r2)
      case (Inl x)
      from quiet_trans [OF q2 quiet_commitFailure] show ?thesis
        by (simp add: analyzeUrl_not_completed [OF False] en Inr b Inl)
    next
      case (Inr v)
      with q2 show ?thesis
        by (simp add: analyzeUrl_not_completed [OF False] en \<open>r1 = Inr urlRecord\<close> b)
    qed
  qed
qed

lemma quiet_background: "quiet w (snd (x, background e u opts cb record w))"
proof -
  have "quiet (snd (analyzeUrl e u opts w)) (emit (CallbackPosted cb body') (snd (analyzeUrl e u opts w)))" for body'
    by (rule quiet_emit) (simp add: isEmailPosted_def)
  from quiet_trans [OF quiet_analyzeUrl this] show ?thesis
    by (simp add: background_def split_beta split: sum.splits option.splits)
qed

lemma quiet_webhookAnalyze: "quiet w (snd (webhookAnalyze e req w))"
proof (cases req)
  case (Inl x)
  then show ?thesis by (simp add: webhookAnalyze_def quiet_refl)
next
  case (Inr b)
  show ?thesis
  proof (cases "truthy (req_url b)")
    case None
    with Inr show ?thesis by (simp add: webhookAnalyze_def quiet_refl)
  next
    case (Some u)
    show ?thesis
    proof (cases "truthy (req_callback_url b)")
      case None
      with Inr Some quiet_analyzeUrl [of w e u "defaultOptions (req_options b)"] show ?thesis
        by (simp add: webhookAnalyze_def split_beta split: sum.splits option.splits)
    next
      case cb: (Some callback_url)
      let ?w2 = "w\<lparr>tick := Suc (Suc (tick w))\<rparr>"
      have q: "quiet w ?w2" by (rule quiet_tick)
      show ?thesis
      proof (cases "insertUrl (db w) u Pending None (clock e (tick w)) (clock e (Suc (tick w)))")
        case (Inl y)
        with Inr Some cb q show ?thesis by (simp add: webhookAnalyze_def newDate_def)
      next
        case ins: (Inr p)
        obtain row d where p: "p = (row, d)" by (cases p)
        have "insertUrl (db ?w2) u Pending None (clock e (tick w)) (clock e (Suc (tick w))) = Inr (row, d)"
          using ins p by simp
        from quiet_trans [OF q quiet_insert [OF this]] have "quiet w (?w2\<lparr>db := d\<rparr>)" .
        from quiet_trans [OF this quiet_background [of "?w2\<lparr>db := d\<rparr>"]]
        show ?thesis using Inr Some cb ins p
          by (simp add: webhookAnalyze_def newDate_def)
      qed
    qed
  qed
qed












lemma emailsOf_analyzeUrl: "emailsOf (snd (analyzeUrl e u opts w)) = emailsOf w"
  using quiet_analyzeUrl [of w e u opts] by (simp add: quiet_def)

lemma emailsOf_webhookAnalyze: "emailsOf (snd (webhookAnalyze e req w)) = emailsOf w"
  using quiet_webhookAnalyze [of w e req] by (simp add: quiet_def)

subsection \<open>Matches of the content patterns\<close>








text \<open>The matcher against the reference semantics.\<close>

lemma lower_other:
  assumes "\<not> (65 \<le> (of_char c :: nat) \<and> (of_char c :: nat) \<le> 90)"
    and "\<not> (97 \<le> (of_char c :: nat) \<and> (of_char c :: nat) \<le> 122)"
  shows "(lower x = lower c) = (x = c)"
proof -
  have c: "lower c = c" using assms(1) unfolding lower_def Let_def
    by (cases "65 \<le> (of_char c :: nat)") simp_all
  show ?thesis
  proof (cases "65 \<le> (of_char x :: nat) \<and> (of_char x :: nat) \<le> 90")
    case True
    then have lx: "lower x = char_of ((of_char x :: nat) + 32)" by (simp add: lower_def Let_def)
    have "(of_char (lower x) :: nat) = (of_char x + 32) mod 256" unfolding lx by (simp only: of_char_of)
    with True have "(of_char (lower x) :: nat) = of_char x + 32" by simp
    with True assms have "lower x \<noteq> c" by auto
    moreover from True assms(1) have "x \<noteq> c" by auto
    ultimately show ?thesis by (simp add: c)
  next
    case False
    then have "lower x = x" unfolding lower_def Let_def
      by (cases "65 \<le> (of_char x :: nat)") simp_all
    then show ?thesis by (simp add: c)
  qed
qed

lemma lower_gt [simp]: "(lower x = lower CHR ''>'') = (x = CHR ''>'')"
  by (rule lower_other) simp_all

lemma lower_quote [simp]: "(lower x = lower (CHR 0x22)) = (x = CHR 0x22)"
  by (rule lower_other) simp_all






































section \<open>The claims\<close>

text \<open>
  C1. When the stored record of the url is completed, \<open>analyzeUrl\<close> returns that record
  and the world as it was, for every environment and all options: no event (no fetch, no
  model run), no change of the store, no reading of the clock. And when a call returned
  a record \<open>r\<close> (from a store whose ids are distinct), \<open>r\<close> is completed and is the
  stored record of the url, so that any second call, with any environment and options,
  returns the same \<open>r\<close> and leaves that world (its tags included) as it is.
\<close>

theorem completed_is_cached:
  "(firstRow (selectByUrl (db w) u) = Some ex \<and> status ex = Completed
      \<longrightarrow> analyzeUrl e u opts w = (Inr (Some ex), w))
   \<and> (distinct (map rowId (analyzedUrls (db w))) \<and> fst (analyzeUrl e u opts w) = Inr (Some r)
      \<longrightarrow> status r = Completed
        \<and> firstRow (selectByUrl (db (snd (analyzeUrl e u opts w))) u) = Some r
        \<and> analyzeUrl e' u opts' (snd (analyzeUrl e u opts w))
            = (Inr (Some r), snd (analyzeUrl e u opts w)))"
proof (intro conjI impI)
  assume "firstRow (selectByUrl (db w) u) = Some ex \<and> status ex = Completed"
  then show "analyzeUrl e u opts w = (Inr (Some ex), w)" by (simp add: analyzeUrl_completed)
next
  assume a: "distinct (map rowId (analyzedUrls (db w))) \<and> fst (analyzeUrl e u opts w) = Inr (Some r)"
  have stored: "status r = Completed
      \<and> firstRow (selectByUrl (db (snd (analyzeUrl e u opts w))) u) = Some r"
  proof (cases "isCompleted (firstRow (selectByUrl (db w) u))")
    case True
    then obtain ex where ex: "firstRow (selectByUrl (db w) u) = Some ex" "status ex = Completed"
      by (auto simp add: isCompleted_def split: option.splits)
    from analyzeUrl_completed [OF this] a ex show ?thesis by simp
  next
    case False
    from analyzeUrl_Inr_page [OF False] a obtain code st html t c n where
      page: "fetch e u = Response code st (Inr html)" "200 \<le> code" "code \<le> 299"
      and long: "extractContent html = (t, c, n)" "50 \<le> length c" by blast
    from analyzeUrl_success_stored [OF False page long, of opts] a show ?thesis by auto
  qed
  then show "status r = Completed"
    and "firstRow (selectByUrl (db (snd (analyzeUrl e u opts w))) u) = Some r" by simp_all
  from stored show "analyzeUrl e' u opts' (snd (analyzeUrl e u opts w))
            = (Inr (Some r), snd (analyzeUrl e u opts w))"
    by (simp add: analyzeUrl_completed)
qed

theorem completed_is_cached_witness:
  "firstRow (selectByUrl (db doneWorld) ''https://good.example'') = Some doneRow
   \<and> status doneRow = Completed
   \<and> analyzeUrl goodEnv ''https://good.example''
        \<lparr>generate_tags = Some True, summary_length = Some ''long''\<rparr> doneWorld
      = (Inr (Some doneRow), doneWorld)
   \<and> distinct (map rowId (analyzedUrls (db emptyWorld)))
   \<and> (\<exists>r. fst (analyzeUrl goodEnv ''https://good.example''
                  \<lparr>generate_tags = Some True, summary_length = None\<rparr> emptyWorld) = Inr (Some r)
          \<and> status r = Completed
          \<and> analyzeUrl downEnv ''https://good.example''
               \<lparr>generate_tags = None, summary_length = Some ''short''\<rparr>
               (snd (analyzeUrl goodEnv ''https://good.example''
                  \<lparr>generate_tags = Some True, summary_length = None\<rparr> emptyWorld))
             = (Inr (Some r),
                snd (analyzeUrl goodEnv ''https://good.example''
                  \<lparr>generate_tags = Some True, summary_length = None\<rparr> emptyWorld)))"
proof -
  let ?u = "''https://good.example''"
  let ?o = "\<lparr>generate_tags = Some True, summary_length = None\<rparr>"
  have h1: "firstRow (selectByUrl (db doneWorld) ?u) = Some doneRow"
    by (simp add: doneWorld_def doneRow_def selectByUrl_def firstRow_def)
  have h2: "status doneRow = Completed" by (simp add: doneRow_def)
  have h3: "distinct (map rowId (analyzedUrls (db emptyWorld)))" by (rule emptyWorld_distinct)
  from analyzeUrl_success_stored [OF emptyWorld_not_completed goodEnv_page _ _ goodHtml_extract goodHtml_long, of ?u ?o]
  obtain r where h4: "fst (analyzeUrl goodEnv ?u ?o emptyWorld) = Inr (Some r)" by auto
  from completed_is_cached [of doneWorld ?u doneRow goodEnv
      "\<lparr>generate_tags = Some True, summary_length = Some ''long''\<rparr>"] h1 h2
  have c1: "analyzeUrl goodEnv ?u \<lparr>generate_tags = Some True, summary_length = Some ''long''\<rparr> doneWorld
      = (Inr (Some doneRow), doneWorld)" by blast
  from completed_is_cached [of emptyWorld ?u _ goodEnv ?o r downEnv
      "\<lparr>generate_tags = None, summary_length = Some ''short''\<rparr>"] h3 h4
  have c2: "status r = Completed
     \<and> analyzeUrl downEnv ?u \<lparr>generate_tags = None, summary_length = Some ''short''\<rparr>
           (snd (analyzeUrl goodEnv ?u ?o emptyWorld))
         = (Inr (Some r), snd (analyzeUrl goodEnv ?u ?o emptyWorld))" by blast
  from h1 h2 h3 h4 c1 c2 show ?thesis by blast
qed

text \<open>
  C2. When the record of the url is not completed, the page is fetched with a 2xx status
  and the content extracted from it is empty or shorter than 50 code units, \<open>analyzeUrl\<close>
  throws the error "Insufficient content extracted from URL", and the record of the url
  ends with status \<open>failed\<close> and that message as its \<open>errorMessage\<close>.
\<close>

theorem insufficient_content_fails:
  assumes "\<not> isCompleted (firstRow (selectByUrl (db w) u))"
    and "fetch e u = Response code st (Inr html)" and "200 \<le> code" and "code \<le> 299"
    and "extractContent html = (t, c, n)" and "length c < 50"
  shows "fst (analyzeUrl e u opts w) = Inl (Error ''Insufficient content extracted from URL'')
     \<and> (\<exists>r. firstRow (selectByUrl (db (snd (analyzeUrl e u opts w))) u) = Some r
           \<and> status r = Failed
           \<and> errorMessage r = Some ''Insufficient content extracted from URL'')"
  using assms by (rule analyzeUrl_insufficient)

theorem insufficient_content_fails_witness:
  "\<not> isCompleted (firstRow (selectByUrl (db emptyWorld) ''https://good.example''))
   \<and> fetch shortEnv ''https://good.example'' = Response 200 ''OK'' (Inr ''<p>Hi</p>'')
   \<and> (200::nat) \<le> 200 \<and> (200::nat) \<le> 299
   \<and> extractContent ''<p>Hi</p>'' = ([], ''Hi'', 1) \<and> length ''Hi'' < 50
   \<and> fst (analyzeUrl shortEnv ''https://good.example''
             \<lparr>generate_tags = Some True, summary_length = None\<rparr> emptyWorld)
       = Inl (Error ''Insufficient content extracted from URL'')
   \<and> (\<exists>r. firstRow (selectByUrl (db (snd (analyzeUrl shortEnv ''https://good.example''
                \<lparr>generate_tags = Some True, summary_length = None\<rparr> emptyWorld)))
              ''https://good.example'') = Some r
         \<and> status r = Failed
         \<and> errorMessage r = Some ''Insufficient content extracted from URL'')"
proof -
  have h1: "\<not> isCompleted (firstRow (selectByUrl (db emptyWorld) ''https://good.example''))"
    by (rule emptyWorld_not_completed)
  have h2: "fetch shortEnv ''https://good.example'' = Response 200 ''OK'' (Inr ''<p>Hi</p>'')"
    by (simp add: shortEnv_def)
  have h3: "(200::nat) \<le> 200" and h4: "(200::nat) \<le> 299" by simp_all
  have h5: "extractContent ''<p>Hi</p>'' = ([], ''Hi'', 1)" by (rule shortHtml_extract)
  have h6: "length ''Hi'' < 50" by simp
  from insufficient_content_fails [OF h1 h2 h3 h4 h5 h6] h1 h2 h5
  show ?thesis by simp
qed



text \<open>
  C4. When a run of \<open>analyzeUrl\<close> on a url whose record is not completed throws \<open>x\<close>,
  the record \<open>urlRecord\<close> existed (found, or inserted by this run, in the world \<open>w1\<close>),
  \<open>x\<close> is what the step after it threw, and the table after the run is the table of
  \<open>w1\<close> with \<open>status = failed\<close>, \<open>errorMessage\<close> and \<open>updatedAt\<close> written on that record:
  every other field of it, every other row and every tag is as before. Against the table
  at the start of the run, a record that existed differs in these three fields only
  (whatever \<open>title\<close>, \<open>content\<close> and \<open>summary\<close> it held are kept).
\<close>

theorem failure_commit_frame:
  assumes nc: "\<not> isCompleted (firstRow (selectByUrl (db w) u))"
    and fail: "fst (analyzeUrl e u opts w) = Inl x"
  shows "\<exists>urlRecord w1 now.
       enterPending e u (firstRow (selectByUrl (db w) u)) w = (Inr urlRecord, w1)
     \<and> fst (analyzeBody e u opts urlRecord w1) = Inl x
     \<and> analyzedUrls (db (snd (analyzeUrl e u opts w))) =
         map (\<lambda>r. if rowId r = rowId urlRecord
                  then r\<lparr>status := Failed, errorMessage := Some (errorMessageOf x), updatedAt := now\<rparr>
                  else r) (analyzedUrls (db w1))
     \<and> contentTags (db (snd (analyzeUrl e u opts w))) = contentTags (db w)
     \<and> (case firstRow (selectByUrl (db w) u) of
          Some ex \<Rightarrow>
            analyzedUrls (db (snd (analyzeUrl e u opts w))) =
              map (\<lambda>r. if rowId r = rowId ex
                       then r\<lparr>status := Failed, errorMessage := Some (errorMessageOf x), updatedAt := now\<rparr>
                       else r) (analyzedUrls (db w))
        | None \<Rightarrow>
            analyzedUrls (db (snd (analyzeUrl e u opts w))) =
              analyzedUrls (db w) @
                [urlRecord\<lparr>status := Failed, errorMessage := Some (errorMessageOf x), updatedAt := now\<rparr>])"
proof -
  from enterPending_ok [of e u w] obtain urlRecord w1 r1 where
    enter: "enterPending e u (firstRow (selectByUrl (db w) u)) w = (Inr urlRecord, w1)"
    and tags1: "contentTags (db w1) = contentTags (db w)"
    and e1: "rowId urlRecord \<in> set (map rowId (analyzedUrls (db w1)))"
    and rel: "(case firstRow (selectByUrl (db w) u) of
          Some ex \<Rightarrow> rowId urlRecord = rowId ex \<and> r1 = setPending (clock e (tick w)) ex
            \<and> analyzedUrls (db w1) =
                map (\<lambda>r. if rowId r = rowId ex then setPending (clock e (tick w)) r else r)
                  (analyzedUrls (db w))
        | None \<Rightarrow> analyzedUrls (db w1) = analyzedUrls (db w) @ [urlRecord] \<and> r1 = urlRecord
            \<and> rowId urlRecord \<notin> set (map rowId (analyzedUrls (db w)))
            \<and> url urlRecord = u)"
    by blast
  let ?now = "clock e (tick w1)"
  let ?F = "\<lambda>r. r\<lparr>status := Failed, errorMessage := Some (errorMessageOf x), updatedAt := ?now\<rparr>"
  let ?w' = "snd (analyzeUrl e u opts w)"
  from analyzeUrl_step_failure [OF nc enter e1 fail]
  have body: "analyzeBody e u opts urlRecord w1 = (Inl x, emit (Fetched u) w1)"
    and w': "?w' = (emit (Fetched u) w1)\<lparr>tick := Suc (tick w1),
            db := snd (updateById (db w1) (rowId urlRecord)
                         (setFailed (errorMessageOf x) ?now))\<rparr>"
    by blast+
  have F: "setFailed (errorMessageOf x) ?now = ?F" by (rule ext) (simp add: setFailed_def)
  have rows: "analyzedUrls (db ?w') =
      map (\<lambda>r. if rowId r = rowId urlRecord then ?F r else r) (analyzedUrls (db w1))"
    unfolding w' by (simp add: updateById_tables F)
  have tags: "contentTags (db ?w') = contentTags (db w)"
    unfolding w' by (simp add: updateById_tables tags1)
  have start: "(case firstRow (selectByUrl (db w) u) of
          Some ex \<Rightarrow>
            analyzedUrls (db ?w') =
              map (\<lambda>r. if rowId r = rowId ex then ?F r else r) (analyzedUrls (db w))
        | None \<Rightarrow> analyzedUrls (db ?w') = analyzedUrls (db w) @ [?F urlRecord])"
  proof (cases "firstRow (selectByUrl (db w) u)")
    case None
    with rel have r: "analyzedUrls (db w1) = analyzedUrls (db w) @ [urlRecord]"
      "rowId urlRecord \<notin> set (map rowId (analyzedUrls (db w)))" by simp_all
    show ?thesis unfolding None option.case rows r(1)
      using map_update_other [OF r(2)] by simp
  next
    case (Some ex)
    with rel have r: "rowId urlRecord = rowId ex"
      "analyzedUrls (db w1) =
         map (\<lambda>r. if rowId r = rowId ex then setPending (clock e (tick w)) r else r)
           (analyzedUrls (db w))" by simp_all
    show ?thesis unfolding Some option.case rows r
      by (simp add: setPending_def comp_def cong: if_cong)
  qed
  from enter body rows tags start show ?thesis by (intro exI [of _ urlRecord] exI [of _ w1] exI [of _ ?now]) simp
qed
theorem failure_commit_frame_witness:
  "\<not> isCompleted (firstRow (selectByUrl (db failedWorld) ''https://good.example''))
   \<and> fst (analyzeUrl shortEnv ''https://good.example''
             \<lparr>generate_tags = Some True, summary_length = None\<rparr> failedWorld)
       = Inl (Error ''Insufficient content extracted from URL'')
   \<and> (\<exists>now. analyzedUrls (db (snd (analyzeUrl shortEnv ''https://good.example''
                \<lparr>generate_tags = Some True, summary_length = None\<rparr> failedWorld)))
         = [failedRow\<lparr>status := Failed,
                      errorMessage := Some ''Insufficient content extracted from URL'',
                      updatedAt := now\<rparr>])
   \<and> contentTags (db (snd (analyzeUrl shortEnv ''https://good.example''
                \<lparr>generate_tags = Some True, summary_length = None\<rparr> failedWorld))) = []"
proof -
  let ?u = "''https://good.example''"
  let ?o = "\<lparr>generate_tags = Some True, summary_length = None\<rparr>"
  have h1: "\<not> isCompleted (firstRow (selectByUrl (db failedWorld) ?u))"
    by (simp add: failedWorld_row isCompleted_def failedRow_def)
  have page: "fetch shortEnv ?u = Response 200 ''OK'' (Inr ''<p>Hi</p>'')"
    by (simp add: shortEnv_def)
  have h2: "fst (analyzeUrl shortEnv ?u ?o failedWorld)
      = Inl (Error ''Insufficient content extracted from URL'')"
    using analyzeUrl_insufficient [OF h1 page _ _ shortHtml_extract, of ?o] by simp
  from failure_commit_frame [OF h1 h2] obtain now where
    "analyzedUrls (db (snd (analyzeUrl shortEnv ?u ?o failedWorld))) =
       map (\<lambda>r. if rowId r = rowId failedRow
                then r\<lparr>status := Failed,
                       errorMessage := Some (errorMessageOf (Error ''Insufficient content extracted from URL'')),
                       updatedAt := now\<rparr>
                else r) (analyzedUrls (db failedWorld))"
    "contentTags (db (snd (analyzeUrl shortEnv ?u ?o failedWorld))) = contentTags (db failedWorld)"
    unfolding failedWorld_row option.case by blast
  then have "analyzedUrls (db (snd (analyzeUrl shortEnv ?u ?o failedWorld)))
         = [failedRow\<lparr>status := Failed,
                      errorMessage := Some ''Insufficient content extracted from URL'',
                      updatedAt := now\<rparr>]"
    "contentTags (db (snd (analyzeUrl shortEnv ?u ?o failedWorld))) = []"
    by (simp_all add: failedWorld_def errorMessageOf_def)
  with h1 h2 show ?thesis by blast
qed

text \<open>
  C5, at a request that gives an email address, with the provider key configured: the
  route \<open>POST /webhook/analyze\<close> is answered by its first registration, which analyzes
  the url, posts no email and answers \<open>{analysis_id, status, result}\<close>. The second
  registration of the same route, which is never reached, would have posted the email to
  that address and answered with its outcome.
\<close>

theorem webhook_analyze_sends_no_email:
  "dispatch routes ''POST'' ''/webhook/analyze'' goodEnv (Inr emailRequest) emptyWorld
     = webhookAnalyze goodEnv (Inr emailRequest) emptyWorld
   \<and> emailsOf (snd (dispatch routes ''POST'' ''/webhook/analyze'' goodEnv (Inr emailRequest)
                       emptyWorld)) = []
   \<and> (\<exists>r. fst (dispatch routes ''POST'' ''/webhook/analyze'' goodEnv (Inr emailRequest)
                   emptyWorld) = (200, PResult (rowId r) Completed r))
   \<and> (\<exists>r h. fst (webhookAnalyzeEmail goodEnv (Inr emailRequest) emptyWorld)
                 = (200, PAnalysis (Some r) (Some (EmailSent ''email-1'')))
          \<and> emailsOf (snd (webhookAnalyzeEmail goodEnv (Inr emailRequest) emptyWorld))
              = [EmailPosted ''re_key'' ''a@b.com'' ''Analysis Summary: T'' h])"
proof -
  let ?u = "''https://good.example''"
  have served: "dispatch routes ''POST'' ''/webhook/analyze'' goodEnv (Inr emailRequest) emptyWorld
     = webhookAnalyze goodEnv (Inr emailRequest) emptyWorld"
    by (simp add: routes_def)
  have none: "emailsOf (snd (webhookAnalyze goodEnv (Inr emailRequest) emptyWorld)) = []"
    unfolding emailsOf_webhookAnalyze by (simp add: emailsOf_def emptyWorld_def)
  have tr: "truthy (req_url emailRequest) = Some ?u" "truthy (req_callback_url emailRequest) = None"
    "truthy (req_email emailRequest) = Some ''a@b.com''" "truthy (RESEND_API_KEY goodEnv) = Some ''re_key''"
    "truthy (req_subject emailRequest) = None"
    by (simp_all add: truthy_def emailRequest_def goodEnv_def)
  have first: "\<exists>r. fst (webhookAnalyze goodEnv (Inr emailRequest) emptyWorld)
      = (200, PResult (rowId r) Completed r)"
  proof -
    from analyzeUrl_success_stored [OF emptyWorld_not_completed goodEnv_page _ _ goodHtml_extract goodHtml_long,
        of ?u "defaultOptions (req_options emailRequest)"]
    obtain r where "fst (analyzeUrl goodEnv ?u (defaultOptions (req_options emailRequest)) emptyWorld) = Inr (Some r)"
      "status r = Completed" by auto
    then show ?thesis
      by (intro exI [of _ r]) (simp add: webhookAnalyze_def tr split_beta)
  qed
  have second: "\<exists>r h. fst (webhookAnalyzeEmail goodEnv (Inr emailRequest) emptyWorld)
                 = (200, PAnalysis (Some r) (Some (EmailSent ''email-1'')))
          \<and> emailsOf (snd (webhookAnalyzeEmail goodEnv (Inr emailRequest) emptyWorld))
              = [EmailPosted ''re_key'' ''a@b.com'' ''Analysis Summary: T'' h]"
  proof -
    let ?o = "\<lparr>generate_tags = req_generate_tags emailRequest,
                summary_length = req_summary_length emailRequest\<rparr>"
    from analyzeUrl_success [OF emptyWorld_not_completed goodEnv_page _ _ goodHtml_extract goodHtml_long refl,
        of ?u ?o]
    obtain r0 a b where res: "fst (analyzeUrl goodEnv ?u ?o emptyWorld) =
        Inr (Some (setCompleted ''T''
           ''Hello world this is a sufficiently long test paragraph for extraction''
           (fst (fst (generateSummary
              ''Hello world this is a sufficiently long test paragraph for extraction''
              goodEnv (summary_length ?o) emptyWorld))) 11 a (classify ?u) b r0))"
      by auto
    define r where "r = setCompleted ''T''
           ''Hello world this is a sufficiently long test paragraph for extraction''
           (fst (fst (generateSummary
              ''Hello world this is a sufficiently long test paragraph for extraction''
              goodEnv (summary_length ?o) emptyWorld))) 11 a (classify ?u) b r0"
    have t: "title r = Some ''T''" by (simp add: r_def setCompleted_def)
    have em: "emailsOf (snd (analyzeUrl goodEnv ?u ?o emptyWorld)) = []"
      unfolding emailsOf_analyzeUrl by (simp add: emailsOf_def emptyWorld_def)
    have subj: "emailSubjectOf (req_subject emailRequest) (Some r) = Inr ''Analysis Summary: T''"
    proof -
      have "truthy (Some ''T'') = Some ''T''" by (simp add: truthy_def)
      then show ?thesis by (simp add: emailSubjectOf_def tr t)
    qed
    have inc: "(req_include_full_content emailRequest = Some True) = False"
      by (simp add: emailRequest_def)
    have rs: "resend goodEnv k to s h = ResendResponse 200 [] (Inr ''email-1'')" for k to s h
      by (simp add: goodEnv_def)
    show ?thesis
      apply (rule exI [of _ r])
      apply (rule exI [of _ "emailHtml goodEnv r False"])
      using res [folded r_def] em inc
      apply (simp add: webhookAnalyzeEmail_def tr split_beta subj sendSummaryEmail_def rs Let_def
          emailsOf_def isEmailPosted_def)
      done
  qed
  from served none first second show ?thesis by simp
qed






text \<open>
  C8. A POST to \<open>/webhook/batch-analyze\<close> whose \<open>urls\<close> array has more than 10 entries is
  answered with status 400, and the world is what it was: no url was fetched, no step of
  the pipeline ran, the store and the clock were not touched.
\<close>

theorem batch_over_ten_rejected:
  assumes "req_urls b = Some urls" and "length urls > 10"
  shows "dispatch routes ''POST'' ''/webhook/batch-analyze'' e (Inr b) w
           = ((400, PError ''Maximum 10 URLs per batch'' None), w)"
  using assms by (auto simp add: routes_def webhookBatchAnalyze_def)

theorem batch_over_ten_rejected_witness:
  "req_urls elevenUrls = Some (replicate 11 ''https://good.example'')
   \<and> length (replicate 11 ''https://good.example'') > 10
   \<and> dispatch routes ''POST'' ''/webhook/batch-analyze'' goodEnv (Inr elevenUrls) emptyWorld
       = ((400, PError ''Maximum 10 URLs per batch'' None), emptyWorld)"
proof -
  have h1: "req_urls elevenUrls = Some (replicate 11 ''https://good.example'')"
    by (simp add: elevenUrls_def)
  have h2: "length (replicate 11 ''https://good.example'') > 10" by simp
  from batch_over_ten_rejected [OF h1 h2] h1 h2 show ?thesis by blast
qed

text \<open>
  C9. When the stored record of a url is completed, \<open>analyzeUrl\<close> leaves the whole
  store as it was, whatever the options: every row of \<open>analyzed_urls\<close> with every field
  (\<open>updatedAt\<close> too), every row of \<open>content_tags\<close>, and the key counters.
\<close>

theorem completed_no_store_mutation:
  assumes "firstRow (selectByUrl (db w) u) = Some ex" and "status ex = Completed"
  shows "db (snd (analyzeUrl e u opts w)) = db w"
  using assms by (simp add: analyzeUrl_completed)

theorem completed_no_store_mutation_witness:
  "firstRow (selectByUrl (db doneWorld) ''https://good.example'') = Some doneRow
   \<and> status doneRow = Completed
   \<and> db (snd (analyzeUrl goodEnv ''https://good.example''
                 \<lparr>generate_tags = Some True, summary_length = Some ''long''\<rparr> doneWorld))
       = db doneWorld"
proof -
  have h1: "firstRow (selectByUrl (db doneWorld) ''https://good.example'') = Some doneRow"
    by (simp add: doneWorld_def doneRow_def selectByUrl_def firstRow_def)
  have h2: "status doneRow = Completed" by (simp add: doneRow_def)
  from completed_no_store_mutation [OF h1 h2] h1 h2 show ?thesis by blast
qed

text \<open>
  C10. The tool \<open>analyze_url\<close> runs the pipeline with \<open>generate_tags = true\<close> and the
  given \<open>summary_length\<close>, whatever its arguments. So a fresh successful analysis started
  through it (no completed record, a 2xx page with enough content) appends to
  \<open>content_tags\<close> one row for each tag that \<open>generateSummary\<close> returned, in order, with
  the id of the record and confidence 0.8; and these are at most 5.
\<close>

theorem tool_always_stores_tags:
  assumes nc: "\<not> isCompleted (firstRow (selectByUrl (db w) u))"
    and page: "fetch e u = Response code st (Inr html)" "200 \<le> code" "code \<le> 299"
    and long: "extractContent html = (t, c, n)" "50 \<le> length c"
    and tags: "tags = snd (fst (generateSummary c e (Some summaryLength) w))"
  shows "snd (analyzeUrlTool e u summaryLength w)
           = snd (analyzeUrl e u \<lparr>generate_tags = Some True, summary_length = Some summaryLength\<rparr> w)
     \<and> length tags \<le> 5
     \<and> (\<exists>r new. fst (analyzeUrl e u
                        \<lparr>generate_tags = Some True, summary_length = Some summaryLength\<rparr> w)
                   = Inr (Some r)
           \<and> status r = Completed
           \<and> contentTags (db (snd (analyzeUrlTool e u summaryLength w))) = contentTags (db w) @ new
           \<and> map (\<lambda>t. (urlId t, tag t, confidence t)) new = map (\<lambda>t. (rowId r, t, Some 0.8)) tags)"
proof -
  let ?o = "\<lparr>generate_tags = Some True, summary_length = Some summaryLength\<rparr>"
  have same: "snd (analyzeUrlTool e u summaryLength w) = snd (analyzeUrl e u ?o w)"
    by (simp add: analyzeUrlTool_def split: prod.splits sum.splits option.splits)
  have five: "length tags \<le> 5" unfolding tags by (rule tags_at_most_five)
  from analyzeUrl_success_stored [OF nc page long, of ?o]
  obtain r new where
    "fst (analyzeUrl e u ?o w) = Inr (Some r)" "status r = Completed"
    "contentTags (db (snd (analyzeUrl e u ?o w))) = contentTags (db w) @ new"
    "map (\<lambda>t. (urlId t, tag t, confidence t)) new = map (\<lambda>t. (rowId r, t, Some 0.8)) tags"
    unfolding tags by auto
  with same five show ?thesis by auto
qed

theorem tool_always_stores_tags_witness:
  "\<not> isCompleted (firstRow (selectByUrl (db emptyWorld) ''https://good.example''))
   \<and> fetch goodEnv ''https://good.example'' = Response 200 ''OK'' (Inr goodHtml)
   \<and> (200::nat) \<le> 200 \<and> (200::nat) \<le> 299
   \<and> extractContent goodHtml =
        (''T'', ''Hello world this is a sufficiently long test paragraph for extraction'', 11)
   \<and> 50 \<le> length ''Hello world this is a sufficiently long test paragraph for extraction''
   \<and> [''a'', ''b'', ''c'', ''d'', ''e''] =
        snd (fst (generateSummary
          ''Hello world this is a sufficiently long test paragraph for extraction''
          goodEnv (Some ''medium'') emptyWorld))
   \<and> (\<exists>r new. fst (analyzeUrl goodEnv ''https://good.example''
                       \<lparr>generate_tags = Some True, summary_length = Some ''medium''\<rparr> emptyWorld)
                  = Inr (Some r)
          \<and> contentTags (db (snd (analyzeUrlTool goodEnv ''https://good.example'' ''medium''
                                    emptyWorld))) = new
          \<and> map (\<lambda>t. (urlId t, tag t, confidence t)) new
              = map (\<lambda>t. (rowId r, t, Some 0.8)) [''a'', ''b'', ''c'', ''d'', ''e''])"
proof -
  have h1: "\<not> isCompleted (firstRow (selectByUrl (db emptyWorld) ''https://good.example''))"
    by (rule emptyWorld_not_completed)
  have h2: "fetch goodEnv ''https://good.example'' = Response 200 ''OK'' (Inr goodHtml)"
    by (rule goodEnv_page)
  have h3: "(200::nat) \<le> 200" and h4: "(200::nat) \<le> 299" by simp_all
  note h5 = goodHtml_extract and h6 = goodHtml_long
  have h7: "[''a'', ''b'', ''c'', ''d'', ''e''] =
        snd (fst (generateSummary
          ''Hello world this is a sufficiently long test paragraph for extraction''
          goodEnv (Some ''medium'') emptyWorld))"
    by (simp add: generateSummary_def summaryAttempt_def goodEnv_def Let_def goodReply_tags)
  from tool_always_stores_tags [OF h1 h2 h3 h4 h5 h6 h7]
  have "\<exists>r new. fst (analyzeUrl goodEnv ''https://good.example''
                       \<lparr>generate_tags = Some True, summary_length = Some ''medium''\<rparr> emptyWorld)
                  = Inr (Some r)
          \<and> contentTags (db (snd (analyzeUrlTool goodEnv ''https://good.example'' ''medium''
                                    emptyWorld))) = new
          \<and> map (\<lambda>t. (urlId t, tag t, confidence t)) new
              = map (\<lambda>t. (rowId r, t, Some 0.8)) [''a'', ''b'', ''c'', ''d'', ''e'']"
    by (auto simp add: emptyWorld_def emptyStore_def)
  with h1 h2 h5 h6 h7 show ?thesis by simp
qed

end
